theory Spec2Isabelle
  imports Complex_Main "HOL-Library.Word" "HOL-Library.Signed_Division"
begin

section \<open>Machine integers\<close>

text \<open>
  The wallet computes with Go's \<open>int64\<close> (amounts, fee rate) and \<open>int\<close> (counts and
  sizes; 64 bits wide on the 64-bit targets the module is built for).  Both are 64-bit
  words here: \<open>+\<close>, \<open>-\<close> and \<open>*\<close> wrap around as in Go, comparisons are the signed
  ones (\<open><s\<close>, \<open>\<le>s\<close>), and \<open>sint\<close> reads a word as the integer it stands for.
\<close>

type_synonym int64 = "64 word"
type_synonym go_int = "64 word"
type_synonym uint32 = "32 word"
type_synonym bytes = "8 word list"

definition go_div :: "int64 \<Rightarrow> int64 \<Rightarrow> int64" where
  \<comment> \<open>Go's \<open>/\<close> on signed integers truncates towards zero.\<close>
  "go_div a b = word_of_int (sint a sdiv sint b)"

section \<open>Data model (wallet.go)\<close>

type_synonym AddressType = string

definition P2PKH :: AddressType where "P2PKH = ''p2pkh''"
definition P2WPKH :: AddressType where "P2WPKH = ''p2wpkh''"
definition P2SH :: AddressType where "P2SH = ''p2sh''"
definition P2TR :: AddressType where "P2TR = ''p2tr''"

datatype Params = MainNetParams | TestNet3Params

record UTXO =
  TxID :: string
  Vout :: uint32
  Value :: int64

record BitcoinWallet =
  privateKey :: bytes
  publicKey :: bytes
  network :: Params
  apiURL :: string
  feeRate :: int64

definition dustThreshold :: int64 where
  "dustThreshold = 546"

record PaymentOutput =
  Address :: string
  Amount :: int64

record 'addr resolvedOutput =
  ro_address :: 'addr
  ro_script :: bytes
  ro_amount :: int64

subsection \<open>Transactions (the fields of \<open>wire.MsgTx\<close> the wallet reads and writes)\<close>

record OutPoint =
  Hash :: bytes
  Index :: uint32

record TxIn =
  PreviousOutPoint :: OutPoint
  SignatureScript :: bytes
  Witness :: "bytes list"
  Sequence :: uint32

record TxOut =
  TxOut_Value :: int64
  PkScript :: bytes

record MsgTx =
  Version :: "32 word"
  MsgTx_TxIn :: "TxIn list"
  MsgTx_TxOut :: "TxOut list"
  LockTime :: uint32

definition NewMsgTx :: "32 word \<Rightarrow> MsgTx" where
  "NewMsgTx v = \<lparr>Version = v, MsgTx_TxIn = [], MsgTx_TxOut = [], LockTime = 0\<rparr>"

definition TxVersion :: "32 word" where
  "TxVersion = 1"

definition MaxTxInSequenceNum :: uint32 where
  "MaxTxInSequenceNum = 0xffffffff"

definition NewOutPoint :: "bytes \<Rightarrow> uint32 \<Rightarrow> OutPoint" where
  "NewOutPoint h i = \<lparr>Hash = h, Index = i\<rparr>"

definition NewTxIn :: "OutPoint \<Rightarrow> bytes \<Rightarrow> bytes list \<Rightarrow> TxIn" where
  "NewTxIn prevOut sigScript wit =
     \<lparr>PreviousOutPoint = prevOut, SignatureScript = sigScript, Witness = wit,
      Sequence = MaxTxInSequenceNum\<rparr>"

definition NewTxOut :: "int64 \<Rightarrow> bytes \<Rightarrow> TxOut" where
  "NewTxOut v pk = \<lparr>TxOut_Value = v, PkScript = pk\<rparr>"

definition AddTxIn :: "TxIn \<Rightarrow> MsgTx \<Rightarrow> MsgTx" where
  "AddTxIn ti tx = tx\<lparr>MsgTx_TxIn := MsgTx_TxIn tx @ [ti]\<rparr>"

definition AddTxOut :: "TxOut \<Rightarrow> MsgTx \<Rightarrow> MsgTx" where
  "AddTxOut to tx = tx\<lparr>MsgTx_TxOut := MsgTx_TxOut tx @ [to]\<rparr>"

subsection \<open>Errors\<close>

text \<open>
  One constructor per \<open>fmt.Errorf\<close> site of tx.go, carrying the values the message
  formats (an output or input index, the amounts) and, where the site wraps a cause with
  \<open>%w\<close>, the cause when it is an error of the wallet itself.  \<open>PanicIndexOutOfRange\<close>
  is not a returned error: it stands for the run-time panic of an out-of-range slice
  index, which unwinds through every caller.
\<close>

datatype error =
    ErrNoOutputs
  | ErrAmountNotPositive nat
  | ErrOutputAddress nat error
  | ErrOutputScript nat
  | ErrBelowDust nat int64
  | ErrAmountOverflow
  | ErrAddrEmpty
  | ErrAddrDecode
  | ErrAddrWrongNetwork
  | ErrNoUTXO
  | ErrInsufficientFunds int64 int64
  | ErrInsufficientForFee
  | ErrMissingOutputs
  | ErrInvalidChange int64
  | ErrInputMissingTxID nat
  | ErrParseTxHash
  | ErrChangeAddress
  | ErrChangeAddressDecode
  | ErrChangeScript
  | ErrTargetScript
  | ErrSenderAddress error
  | ErrSenderAddressDecode
  | ErrSenderScript
  | ErrUnsupportedAddressType AddressType
  | ErrNewAddress
  | ErrSigHash
  | ErrWitnessSigHash
  | ErrRedeemScript
  | ErrBuildSigScript
  | ErrP2TRAddress
  | ErrP2TRDecode
  | ErrP2TRScript
  | ErrTaprootSignature
  | ErrSignInput int error
  | ErrSelectUTXOs error
  | ErrCreateTx error
  | ErrSignTx error
  | ErrGetUTXOs
  | ErrSerialize
  | ErrBroadcast
  | PanicIndexOutOfRange

definition wrapErr :: "(error \<Rightarrow> error) \<Rightarrow> error \<Rightarrow> error" where
  \<comment> \<open>\<open>fmt.Errorf("...: %w", err)\<close> on a returned error; a panic is never wrapped.\<close>
  "wrapErr f e = (if e = PanicIndexOutOfRange then e else f e)"

subsection \<open>Collaborators\<close>

text \<open>
  Everything the wallet calls outside tx.go and wallet.go is a parameter: the btcd
  library (address decoding, script building, signature digests, signing, serialisation)
  and the REST API behind \<open>GetUTXOs\<close> and \<open>BroadcastTransaction\<close>.  A collaborator that
  can return an error returns \<open>None\<close> for it.  \<open>'addr\<close> is \<open>btcutil.Address\<close>.  A script
  builder is the script built so far, or \<open>None\<close> once an operation on it has failed.
\<close>

type_synonym ScriptBuilder = "bytes option"

record 'addr collaborators =
  TrimSpace :: "string \<Rightarrow> string"
  DecodeAddress :: "string \<Rightarrow> Params \<Rightarrow> 'addr option"
  IsForNet :: "'addr \<Rightarrow> Params \<Rightarrow> bool"
  EncodeAddress :: "'addr \<Rightarrow> string"
  PayToAddrScript :: "'addr \<Rightarrow> bytes option"
  NewHashFromStr :: "string \<Rightarrow> bytes option"
  Hash160 :: "bytes \<Rightarrow> bytes"
  SerializeCompressed :: "bytes \<Rightarrow> bytes"
  NewAddressPubKeyHash :: "bytes \<Rightarrow> Params \<Rightarrow> 'addr option"
  NewAddressWitnessPubKeyHash :: "bytes \<Rightarrow> Params \<Rightarrow> 'addr option"
  NewAddressScriptHashFromHash :: "bytes \<Rightarrow> Params \<Rightarrow> 'addr option"
  NewAddressTaproot :: "bytes \<Rightarrow> Params \<Rightarrow> 'addr option"
  ComputeTaprootKeyNoScript :: "bytes \<Rightarrow> bytes"
  SerializePubKey :: "bytes \<Rightarrow> bytes"
  AddOp :: "8 word \<Rightarrow> ScriptBuilder \<Rightarrow> ScriptBuilder"
  AddData :: "bytes \<Rightarrow> ScriptBuilder \<Rightarrow> ScriptBuilder"
  CalcSignatureHash :: "bytes \<Rightarrow> 8 word \<Rightarrow> MsgTx \<Rightarrow> int \<Rightarrow> bytes option"
  CalcWitnessSigHash ::
    "bytes \<Rightarrow> bytes \<times> int64 \<Rightarrow> 8 word \<Rightarrow> MsgTx \<Rightarrow> int \<Rightarrow> int64 \<Rightarrow> bytes option"
  ecdsaSign :: "bytes \<Rightarrow> bytes \<Rightarrow> bytes"
  RawTxInTaprootSignature ::
    "MsgTx \<Rightarrow> bytes \<times> int64 \<Rightarrow> int \<Rightarrow> int64 \<Rightarrow> bytes \<Rightarrow> 8 word \<Rightarrow> bytes \<Rightarrow> bytes option"
  Serialize :: "MsgTx \<Rightarrow> bytes option"
  EncodeToString :: "bytes \<Rightarrow> string"
  httpGetUTXOs :: "string \<Rightarrow> UTXO list option"
  httpPostTx :: "string \<Rightarrow> string option"

definition NewScriptBuilder :: ScriptBuilder where
  "NewScriptBuilder = Some []"

definition Script :: "ScriptBuilder \<Rightarrow> bytes option" where
  "Script b = b"

definition OP_0 :: "8 word" where "OP_0 = 0"
definition SigHashDefault :: "8 word" where "SigHashDefault = 0"
definition SigHashAll :: "8 word" where "SigHashAll = 1"

section \<open>wallet.go\<close>

subsection \<open>Addresses\<close>

definition getP2PKHAddress :: "'addr collaborators \<Rightarrow> BitcoinWallet \<Rightarrow> error + string" where
  "getP2PKHAddress lib w =
    (let pubKeyHash = Hash160 lib (SerializeCompressed lib (publicKey w))
     in case NewAddressPubKeyHash lib pubKeyHash (network w) of
          None \<Rightarrow> Inl ErrNewAddress
        | Some addr \<Rightarrow> Inr (EncodeAddress lib addr))"

definition getP2WPKHAddress :: "'addr collaborators \<Rightarrow> BitcoinWallet \<Rightarrow> error + string" where
  "getP2WPKHAddress lib w =
    (let pubKeyHash = Hash160 lib (SerializeCompressed lib (publicKey w))
     in case NewAddressWitnessPubKeyHash lib pubKeyHash (network w) of
          None \<Rightarrow> Inl ErrNewAddress
        | Some addr \<Rightarrow> Inr (EncodeAddress lib addr))"

definition getP2SHAddress :: "'addr collaborators \<Rightarrow> BitcoinWallet \<Rightarrow> error + string" where
  "getP2SHAddress lib w =
    (let pubKeyHash = Hash160 lib (SerializeCompressed lib (publicKey w))
     in case Script (AddData lib pubKeyHash (AddOp lib OP_0 NewScriptBuilder)) of
          None \<Rightarrow> Inl ErrRedeemScript
        | Some witnessScript \<Rightarrow>
            (let scriptHash = Hash160 lib witnessScript
             in case NewAddressScriptHashFromHash lib scriptHash (network w) of
                  None \<Rightarrow> Inl ErrNewAddress
                | Some addr \<Rightarrow> Inr (EncodeAddress lib addr)))"

definition getP2TRAddress :: "'addr collaborators \<Rightarrow> BitcoinWallet \<Rightarrow> error + string" where
  \<comment> \<open>The source returns \<open>addr.String()\<close>, which for a taproot address is its encoding.\<close>
  "getP2TRAddress lib w =
    (let tapKey = ComputeTaprootKeyNoScript lib (publicKey w)
     in case NewAddressTaproot lib (SerializePubKey lib tapKey) (network w) of
          None \<Rightarrow> Inl ErrNewAddress
        | Some addr \<Rightarrow> Inr (EncodeAddress lib addr))"

definition GetAddress ::
  "'addr collaborators \<Rightarrow> BitcoinWallet \<Rightarrow> AddressType \<Rightarrow> error + string" where
  "GetAddress lib w addrType =
    (if addrType = P2PKH then getP2PKHAddress lib w
     else if addrType = P2WPKH then getP2WPKHAddress lib w
     else if addrType = P2SH then getP2SHAddress lib w
     else if addrType = P2TR then getP2TRAddress lib w
     else Inl (ErrUnsupportedAddressType addrType))"

subsection \<open>The REST API\<close>

definition GetUTXOs :: "'addr collaborators \<Rightarrow> BitcoinWallet \<Rightarrow> string \<Rightarrow> error + UTXO list" where
  "GetUTXOs lib w addr =
    (case httpGetUTXOs lib addr of None \<Rightarrow> Inl ErrGetUTXOs | Some utxos \<Rightarrow> Inr utxos)"

definition BroadcastTransaction ::
  "'addr collaborators \<Rightarrow> BitcoinWallet \<Rightarrow> string \<Rightarrow> error + string" where
  "BroadcastTransaction lib w txHex =
    (case httpPostTx lib txHex of None \<Rightarrow> Inl ErrBroadcast | Some body \<Rightarrow> Inr body)"

subsection \<open>Coin selection\<close>

text \<open>
  \<open>sort.Slice\<close> orders the copy by \<open>Value\<close> (a signed comparison).  It is not stable: the
  order of coins of equal value is whatever the library's algorithm leaves.  The model
  takes the stable order; the values along the sorted list, and so every running total,
  are the same in either order.
\<close>

fun selectLoop ::
  "UTXO list \<Rightarrow> UTXO list \<Rightarrow> int64 \<Rightarrow> int64 \<Rightarrow> error + UTXO list \<times> int64" where
  "selectLoop [] selected tot amount = Inl (ErrInsufficientFunds amount tot)"
| "selectLoop (utxo # rest) selected tot amount =
    (let selected' = selected @ [utxo];
         tot' = tot + Value utxo
     in if amount \<le>s tot' then Inr (selected', tot')
        else selectLoop rest selected' tot' amount)"

definition sortByValue :: "UTXO list \<Rightarrow> UTXO list" where
  "sortByValue utxos = sort_key (\<lambda>u. sint (Value u)) utxos"

definition SelectUTXOs :: "UTXO list \<Rightarrow> int64 \<Rightarrow> error + UTXO list \<times> int64" where
  "SelectUTXOs utxos amount =
    (if length utxos = 0 then Inl ErrNoUTXO
     else selectLoop (sortByValue utxos) [] 0 amount)"

subsection \<open>Size estimate\<close>

definition EstimateTxSize :: "go_int \<Rightarrow> go_int \<Rightarrow> AddressType \<Rightarrow> go_int" where
  "EstimateTxSize inputs outputs addrType =
    (if addrType = P2PKH then
       (let baseSize = 10 + inputs * 148 + outputs * 34 in baseSize)
     else if addrType = P2WPKH then
       (let baseSize = 10 + inputs * 64 + outputs * 31;
            witnessSize = inputs * 107 + 2;
            vSize = go_div (baseSize * 3 + baseSize + witnessSize) 4
        in vSize)
     else if addrType = P2SH then
       (let baseSize = 10 + inputs * 148 + outputs * 34;
            witnessSize = inputs * 107 + 2;
            vSize = go_div (baseSize * 3 + baseSize + witnessSize) 4
        in vSize)
     else if addrType = P2TR then
       (let baseSize = 10 + inputs * 64 + outputs * 31;
            witnessSize = inputs * 64 + 2;
            vSize = go_div (baseSize * 3 + baseSize + witnessSize) 4
        in vSize)
     else 250)"

subsection \<open>Signing one input\<close>

text \<open>
  \<open>tx.TxIn[idx]\<close> is a slice access: it panics unless \<open>0 \<le> idx < len(tx.TxIn)\<close>.  The
  signing functions update the transaction in place; the model returns the updated
  transaction, and on a returned error or a panic only the error.
\<close>

definition inRange :: "MsgTx \<Rightarrow> int \<Rightarrow> bool" where
  "inRange tx idx \<longleftrightarrow> 0 \<le> idx \<and> idx < int (length (MsgTx_TxIn tx))"

definition setSignatureScript :: "MsgTx \<Rightarrow> int \<Rightarrow> bytes \<Rightarrow> MsgTx" where
  "setSignatureScript tx idx s =
    tx\<lparr>MsgTx_TxIn := (MsgTx_TxIn tx)[nat idx := (MsgTx_TxIn tx ! nat idx)\<lparr>SignatureScript := s\<rparr>]\<rparr>"

definition setWitness :: "MsgTx \<Rightarrow> int \<Rightarrow> bytes list \<Rightarrow> MsgTx" where
  "setWitness tx idx wit =
    tx\<lparr>MsgTx_TxIn := (MsgTx_TxIn tx)[nat idx := (MsgTx_TxIn tx ! nat idx)\<lparr>Witness := wit\<rparr>]\<rparr>"

definition SignP2PKHTransaction ::
  "'addr collaborators \<Rightarrow> BitcoinWallet \<Rightarrow> MsgTx \<Rightarrow> int \<Rightarrow> bytes \<Rightarrow> error + MsgTx" where
  "SignP2PKHTransaction lib w tx idx pkScript =
    (case CalcSignatureHash lib pkScript SigHashAll tx idx of
       None \<Rightarrow> Inl ErrSigHash
     | Some sigHash \<Rightarrow>
        (let signature = ecdsaSign lib (privateKey w) sigHash;
             sigWithHashType = signature @ [SigHashAll];
             built = Script (AddData lib (SerializeCompressed lib (publicKey w))
                       (AddData lib sigWithHashType NewScriptBuilder))
         in if \<not> inRange tx idx then Inl PanicIndexOutOfRange
            else case built of
                   None \<Rightarrow> Inl ErrBuildSigScript
                 | Some sigScript \<Rightarrow> Inr (setSignatureScript tx idx sigScript)))"

definition SignP2WPKHTransaction ::
  "'addr collaborators \<Rightarrow> BitcoinWallet \<Rightarrow> MsgTx \<Rightarrow> int \<Rightarrow> int64 \<Rightarrow> bytes \<Rightarrow> error + MsgTx" where
  "SignP2WPKHTransaction lib w tx idx val pkScript =
    (case CalcWitnessSigHash lib pkScript (pkScript, val) SigHashAll tx idx val of
       None \<Rightarrow> Inl ErrWitnessSigHash
     | Some sigHash \<Rightarrow>
        (let signature = ecdsaSign lib (privateKey w) sigHash;
             sigWithHashType = signature @ [SigHashAll]
         in if \<not> inRange tx idx then Inl PanicIndexOutOfRange
            else Inr (setWitness tx idx
                   [sigWithHashType, SerializeCompressed lib (publicKey w)])))"

definition SignP2SHTransaction ::
  "'addr collaborators \<Rightarrow> BitcoinWallet \<Rightarrow> MsgTx \<Rightarrow> int \<Rightarrow> int64 \<Rightarrow> bytes \<Rightarrow> error + MsgTx" where
  "SignP2SHTransaction lib w tx idx val pkScript =
    (let pubKeyHash = Hash160 lib (SerializeCompressed lib (publicKey w))
     in case Script (AddData lib pubKeyHash (AddOp lib OP_0 NewScriptBuilder)) of
          None \<Rightarrow> Inl ErrRedeemScript
        | Some witnessScript \<Rightarrow>
           (case CalcWitnessSigHash lib witnessScript (pkScript, val) SigHashAll tx idx val of
              None \<Rightarrow> Inl ErrWitnessSigHash
            | Some sigHash \<Rightarrow>
               (let signature = ecdsaSign lib (privateKey w) sigHash;
                    sigWithHashType = signature @ [SigHashAll]
                in if \<not> inRange tx idx then Inl PanicIndexOutOfRange
                   else
                    (let tx' = setWitness tx idx
                                 [sigWithHashType, SerializeCompressed lib (publicKey w)]
                     in case Script (AddData lib witnessScript NewScriptBuilder) of
                          None \<Rightarrow> Inl ErrBuildSigScript
                        | Some sigScript \<Rightarrow> Inr (setSignatureScript tx' idx sigScript)))))"

definition SignP2TRTransaction ::
  "'addr collaborators \<Rightarrow> BitcoinWallet \<Rightarrow> MsgTx \<Rightarrow> int \<Rightarrow> int64 \<Rightarrow> bytes \<Rightarrow> error + MsgTx" where
  "SignP2TRTransaction lib w tx idx val pkScript =
    (case getP2TRAddress lib w of
       Inl e \<Rightarrow> Inl ErrP2TRAddress
     | Inr p2trAddr \<Rightarrow>
        (case DecodeAddress lib p2trAddr (network w) of
           None \<Rightarrow> Inl ErrP2TRDecode
         | Some addrObj \<Rightarrow>
            (case PayToAddrScript lib addrObj of
               None \<Rightarrow> Inl ErrP2TRScript
             | Some prevScript \<Rightarrow>
                (case RawTxInTaprootSignature lib tx (prevScript, val) idx val prevScript
                        SigHashDefault (privateKey w) of
                   None \<Rightarrow> Inl ErrTaprootSignature
                 | Some sig \<Rightarrow>
                    if \<not> inRange tx idx then Inl PanicIndexOutOfRange
                    else Inr (setWitness tx idx [sig])))))"

section \<open>tx.go\<close>

subsection \<open>Fee\<close>

definition estimateFee :: "BitcoinWallet \<Rightarrow> go_int \<Rightarrow> go_int \<Rightarrow> AddressType \<Rightarrow> int64" where
  "estimateFee w inputCount outputCount addrType =
    (let size = EstimateTxSize inputCount outputCount addrType
     in if size \<le>s 0 then 0
        else (let rate = (if feeRate w \<le>s 0 then 1 else feeRate w)
              in size * rate))"

definition computeFeeAndChange ::
  "BitcoinWallet \<Rightarrow> AddressType \<Rightarrow> int64 \<Rightarrow> go_int \<Rightarrow> UTXO list \<Rightarrow> int64 \<Rightarrow> int64 \<times> int64" where
  "computeFeeAndChange w fromAddrType totalAmount outputCount utxos totalValue =
    (if length utxos = 0 then (0, - totalAmount)
     else
      (let feeNoChange = estimateFee w (of_nat (length utxos)) outputCount fromAddrType;
           changeNoChange = totalValue - totalAmount - feeNoChange
       in if changeNoChange <s 0 then (feeNoChange, changeNoChange)
          else
           (let feeWithChange =
                  estimateFee w (of_nat (length utxos)) (outputCount + 1) fromAddrType;
                changeWithChange = totalValue - totalAmount - feeWithChange
            in if dustThreshold <s changeWithChange then (feeWithChange, changeWithChange)
               else
                (let actualFee = totalValue - totalAmount
                 in if actualFee <s 0 then (feeWithChange, changeWithChange)
                    else (actualFee, 0)))))"

subsection \<open>Resolving the payment outputs\<close>

definition decodeAndValidateAddress ::
  "'addr collaborators \<Rightarrow> BitcoinWallet \<Rightarrow> string \<Rightarrow> error + 'addr" where
  "decodeAndValidateAddress lib w addr =
    (let trimmed = TrimSpace lib addr
     in if trimmed = [] then Inl ErrAddrEmpty
        else case DecodeAddress lib trimmed (network w) of
               None \<Rightarrow> Inl ErrAddrDecode
             | Some decoded \<Rightarrow>
                 if \<not> IsForNet lib decoded (network w) then Inl ErrAddrWrongNetwork
                 else Inr decoded)"

fun resolveLoop ::
  "'addr collaborators \<Rightarrow> BitcoinWallet \<Rightarrow> nat \<Rightarrow> PaymentOutput list \<Rightarrow>
   'addr resolvedOutput list \<Rightarrow> int64 \<Rightarrow> error + 'addr resolvedOutput list \<times> int64" where
  "resolveLoop lib w idx [] resolved totalAmount = Inr (resolved, totalAmount)"
| "resolveLoop lib w idx (output # rest) resolved totalAmount =
    (if Amount output \<le>s 0 then Inl (ErrAmountNotPositive idx)
     else case decodeAndValidateAddress lib w (Address output) of
            Inl e \<Rightarrow> Inl (ErrOutputAddress idx e)
          | Inr addr \<Rightarrow>
             (case PayToAddrScript lib addr of
                None \<Rightarrow> Inl (ErrOutputScript idx)
              | Some scr \<Rightarrow>
                 if Amount output <s dustThreshold then Inl (ErrBelowDust idx dustThreshold)
                 else
                  (let resolved' = resolved @
                         [\<lparr>ro_address = addr, ro_script = scr, ro_amount = Amount output\<rparr>];
                       totalAmount' = totalAmount + Amount output
                   in if totalAmount' <s 0 then Inl ErrAmountOverflow
                      else resolveLoop lib w (Suc idx) rest resolved' totalAmount')))"

definition resolvePaymentOutputs ::
  "'addr collaborators \<Rightarrow> BitcoinWallet \<Rightarrow> PaymentOutput list \<Rightarrow>
   error + 'addr resolvedOutput list \<times> int64" where
  "resolvePaymentOutputs lib w outputs =
    (if length outputs = 0 then Inl ErrNoOutputs
     else resolveLoop lib w 0 outputs [] 0)"

subsection \<open>Building the transaction\<close>

fun addInputs :: "'addr collaborators \<Rightarrow> nat \<Rightarrow> UTXO list \<Rightarrow> MsgTx \<Rightarrow> error + MsgTx" where
  "addInputs lib idx [] tx = Inr tx"
| "addInputs lib idx (utxo # rest) tx =
    (if TxID utxo = [] then Inl (ErrInputMissingTxID idx)
     else case NewHashFromStr lib (TxID utxo) of
            None \<Rightarrow> Inl ErrParseTxHash
          | Some txHash \<Rightarrow>
              addInputs lib (Suc idx) rest
                (AddTxIn (NewTxIn (NewOutPoint txHash (Vout utxo)) [] []) tx))"

fun addOutputs :: "'addr resolvedOutput list \<Rightarrow> MsgTx \<Rightarrow> MsgTx" where
  "addOutputs [] tx = tx"
| "addOutputs (output # rest) tx =
    addOutputs rest (AddTxOut (NewTxOut (ro_amount output) (ro_script output)) tx)"

definition buildTransaction ::
  "'addr collaborators \<Rightarrow> BitcoinWallet \<Rightarrow> AddressType \<Rightarrow> UTXO list \<Rightarrow>
   'addr resolvedOutput list \<Rightarrow> int64 \<Rightarrow> error + MsgTx" where
  "buildTransaction lib w fromAddrType utxos outputs changeAmount =
    (if length outputs = 0 then Inl ErrMissingOutputs
     else if changeAmount <s 0 then Inl (ErrInvalidChange changeAmount)
     else case addInputs lib 0 utxos (NewMsgTx TxVersion) of
            Inl e \<Rightarrow> Inl e
          | Inr tx \<Rightarrow>
             (let tx' = addOutputs outputs tx
              in if dustThreshold <s changeAmount then
                   (case GetAddress lib w fromAddrType of
                      Inl e \<Rightarrow> Inl ErrChangeAddress
                    | Inr changeAddr \<Rightarrow>
                       (case DecodeAddress lib changeAddr (network w) of
                          None \<Rightarrow> Inl ErrChangeAddressDecode
                        | Some changeAddrObj \<Rightarrow>
                           (case PayToAddrScript lib changeAddrObj of
                              None \<Rightarrow> Inl ErrChangeScript
                            | Some changeScript \<Rightarrow>
                                Inr (AddTxOut (NewTxOut changeAmount changeScript) tx'))))
                 else Inr tx'))"

subsection \<open>Signing the transaction\<close>

fun signLoop ::
  "'addr collaborators \<Rightarrow> BitcoinWallet \<Rightarrow> AddressType \<Rightarrow> bytes \<Rightarrow> int \<Rightarrow> UTXO list \<Rightarrow>
   MsgTx \<Rightarrow> error + MsgTx" where
  "signLoop lib w fromAddrType fromScript i [] tx = Inr tx"
| "signLoop lib w fromAddrType fromScript i (utxo # rest) tx =
    (let signed =
       (if fromAddrType = P2PKH then Some (SignP2PKHTransaction lib w tx i fromScript)
        else if fromAddrType = P2WPKH then
          Some (SignP2WPKHTransaction lib w tx i (Value utxo) fromScript)
        else if fromAddrType = P2SH then
          Some (SignP2SHTransaction lib w tx i (Value utxo) fromScript)
        else if fromAddrType = P2TR then
          Some (SignP2TRTransaction lib w tx i (Value utxo) fromScript)
        else None)
     in case signed of
          None \<Rightarrow> Inl (ErrUnsupportedAddressType fromAddrType)
        | Some (Inl e) \<Rightarrow> Inl (wrapErr (ErrSignInput i) e)
        | Some (Inr tx') \<Rightarrow> signLoop lib w fromAddrType fromScript (i + 1) rest tx')"

definition SignTransaction ::
  "'addr collaborators \<Rightarrow> BitcoinWallet \<Rightarrow> MsgTx \<Rightarrow> AddressType \<Rightarrow> UTXO list \<Rightarrow>
   error + MsgTx" where
  "SignTransaction lib w tx fromAddrType utxos =
    (case GetAddress lib w fromAddrType of
       Inl e \<Rightarrow> Inl (ErrSenderAddress e)
     | Inr fromAddr \<Rightarrow>
        (case DecodeAddress lib fromAddr (network w) of
           None \<Rightarrow> Inl ErrSenderAddressDecode
         | Some fromAddrObj \<Rightarrow>
            (case PayToAddrScript lib fromAddrObj of
               None \<Rightarrow> Inl ErrSenderScript
             | Some fromScript \<Rightarrow> signLoop lib w fromAddrType fromScript 0 utxos tx)))"

subsection \<open>Pay to many: the reselection loop\<close>

text \<open>
  The \<open>for { ... }\<close> loop of \<open>SendMany\<close> has no bound of its own, so it is a partial
  function: \<open>None\<close> is a run that never leaves the loop.  Its state is the required
  amount; the coins, the outputs' total and count, and the wallet stay fixed.
\<close>

partial_function (option) reselectLoop ::
  "BitcoinWallet \<Rightarrow> AddressType \<Rightarrow> UTXO list \<Rightarrow> int64 \<Rightarrow> go_int \<Rightarrow> int64 \<Rightarrow>
   (error + UTXO list \<times> int64 \<times> int64 \<times> int64) option" where
  "reselectLoop w fromAddrType utxos totalAmount outputCount requiredAmount =
    (case SelectUTXOs utxos requiredAmount of
       Inl e \<Rightarrow> Some (Inl (ErrSelectUTXOs e))
     | Inr (selectedUTXOs, totalValue) \<Rightarrow>
        (case computeFeeAndChange w fromAddrType totalAmount outputCount
                selectedUTXOs totalValue of
           (estimatedFee, changeAmount) \<Rightarrow>
             if 0 \<le>s changeAmount
             then Some (Inr (selectedUTXOs, totalValue, estimatedFee, changeAmount))
             else reselectLoop w fromAddrType utxos totalAmount outputCount
                    (totalAmount + estimatedFee)))"

text \<open>
  The same loop with a round counter, to state a bound: \<open>reselectRounds n\<close> runs at most
  \<open>n\<close> rounds of the loop and is \<open>None\<close> when the loop has not ended by then.
\<close>

fun reselectRounds ::
  "nat \<Rightarrow> BitcoinWallet \<Rightarrow> AddressType \<Rightarrow> UTXO list \<Rightarrow> int64 \<Rightarrow> go_int \<Rightarrow> int64 \<Rightarrow>
   (error + UTXO list \<times> int64 \<times> int64 \<times> int64) option" where
  "reselectRounds 0 w fromAddrType utxos totalAmount outputCount requiredAmount = None"
| "reselectRounds (Suc rounds) w fromAddrType utxos totalAmount outputCount requiredAmount =
    (case SelectUTXOs utxos requiredAmount of
       Inl e \<Rightarrow> Some (Inl (ErrSelectUTXOs e))
     | Inr (selectedUTXOs, totalValue) \<Rightarrow>
        (case computeFeeAndChange w fromAddrType totalAmount outputCount
                selectedUTXOs totalValue of
           (estimatedFee, changeAmount) \<Rightarrow>
             if 0 \<le>s changeAmount
             then Some (Inr (selectedUTXOs, totalValue, estimatedFee, changeAmount))
             else reselectRounds rounds w fromAddrType utxos totalAmount outputCount
                    (totalAmount + estimatedFee)))"

definition SendMany ::
  "'addr collaborators \<Rightarrow> BitcoinWallet \<Rightarrow> AddressType \<Rightarrow> PaymentOutput list \<Rightarrow>
   (error + MsgTx \<times> string) option" where
  \<comment> \<open>A successful run yields the signed transaction it broadcast and the API's answer.\<close>
  "SendMany lib w fromAddrType outputs =
    (case resolvePaymentOutputs lib w outputs of
       Inl e \<Rightarrow> Some (Inl e)
     | Inr (resolvedOutputs, totalAmount) \<Rightarrow>
        (case GetAddress lib w fromAddrType of
           Inl e \<Rightarrow> Some (Inl (ErrSenderAddress e))
         | Inr fromAddr \<Rightarrow>
            (case GetUTXOs lib w fromAddr of
               Inl e \<Rightarrow> Some (Inl e)
             | Inr utxos \<Rightarrow>
                if length utxos = 0 then Some (Inl ErrNoUTXO)
                else
                 (case reselectLoop w fromAddrType utxos totalAmount
                         (of_nat (length resolvedOutputs)) totalAmount of
                    None \<Rightarrow> None
                  | Some (Inl e) \<Rightarrow> Some (Inl e)
                  | Some (Inr (selectedUTXOs, totalValue, estimatedFee, changeAmount)) \<Rightarrow>
                     Some
                      (case buildTransaction lib w fromAddrType selectedUTXOs
                              resolvedOutputs changeAmount of
                         Inl e \<Rightarrow> Inl (wrapErr ErrCreateTx e)
                       | Inr tx \<Rightarrow>
                          (case SignTransaction lib w tx fromAddrType selectedUTXOs of
                             Inl e \<Rightarrow> Inl (wrapErr ErrSignTx e)
                           | Inr tx' \<Rightarrow>
                              (case Serialize lib tx' of
                                 None \<Rightarrow> Inl ErrSerialize
                               | Some buf \<Rightarrow>
                                  (case BroadcastTransaction lib w (EncodeToString lib buf) of
                                     Inl e \<Rightarrow> Inl e
                                   | Inr txid \<Rightarrow> Inr (tx', txid)))))))))"

subsection \<open>Sweep all\<close>

definition totalBalance :: "UTXO list \<Rightarrow> int64" where
  \<comment> \<open>\<open>for _, utxo := range utxos { totalBalance += utxo.Value }\<close>\<close>
  "totalBalance utxos = foldl (\<lambda>acc utxo. acc + Value utxo) 0 utxos"

fun addAllInputs :: "'addr collaborators \<Rightarrow> UTXO list \<Rightarrow> MsgTx \<Rightarrow> error + MsgTx" where
  "addAllInputs lib [] tx = Inr tx"
| "addAllInputs lib (utxo # rest) tx =
    (case NewHashFromStr lib (TxID utxo) of
       None \<Rightarrow> Inl ErrParseTxHash
     | Some txHash \<Rightarrow>
         addAllInputs lib rest (AddTxIn (NewTxIn (NewOutPoint txHash (Vout utxo)) [] []) tx))"

definition transferAmount :: "BitcoinWallet \<Rightarrow> AddressType \<Rightarrow> UTXO list \<Rightarrow> int64" where
  \<comment> \<open>Lines 664 to 679 of \<open>SendAll\<close>: the balance less the estimated fee.\<close>
  "transferAmount w fromAddrType utxos =
    (let estimatedSize = EstimateTxSize (of_nat (length utxos)) 1 fromAddrType;
         rate = (if feeRate w \<le>s 0 then 1 else feeRate w);
         estimatedFee = estimatedSize * rate
     in totalBalance utxos - estimatedFee)"

definition SendAll ::
  "'addr collaborators \<Rightarrow> BitcoinWallet \<Rightarrow> AddressType \<Rightarrow> string \<Rightarrow>
   error + MsgTx \<times> string" where
  \<comment> \<open>A successful run yields the signed transaction it broadcast and the API's answer.\<close>
  "SendAll lib w fromAddrType toAddress =
    (case decodeAndValidateAddress lib w toAddress of
       Inl e \<Rightarrow> Inl e
     | Inr targetAddr \<Rightarrow>
        (case GetAddress lib w fromAddrType of
           Inl e \<Rightarrow> Inl (ErrSenderAddress e)
         | Inr fromAddr \<Rightarrow>
            (case GetUTXOs lib w fromAddr of
               Inl e \<Rightarrow> Inl e
             | Inr utxos \<Rightarrow>
                if length utxos = 0 then Inl ErrNoUTXO
                else if transferAmount w fromAddrType utxos \<le>s 0 then Inl ErrInsufficientForFee
                else
                 (case addAllInputs lib utxos (NewMsgTx TxVersion) of
                    Inl e \<Rightarrow> Inl e
                  | Inr tx \<Rightarrow>
                     (case PayToAddrScript lib targetAddr of
                        None \<Rightarrow> Inl ErrTargetScript
                      | Some receiverScript \<Rightarrow>
                         (let tx' = AddTxOut
                                (NewTxOut (transferAmount w fromAddrType utxos) receiverScript) tx
                          in case SignTransaction lib w tx' fromAddrType utxos of
                               Inl e \<Rightarrow> Inl (wrapErr ErrSignTx e)
                             | Inr tx'' \<Rightarrow>
                                (case Serialize lib tx'' of
                                   None \<Rightarrow> Inl ErrSerialize
                                 | Some buf \<Rightarrow>
                                    (case BroadcastTransaction lib w (EncodeToString lib buf) of
                                       Inl e \<Rightarrow> Inl e
                                     | Inr txid \<Rightarrow> Inr (tx'', txid)))))))))"

section \<open>The specification's formulas and sample data\<close>

definition spec_segwit_vsize :: "int \<Rightarrow> int \<Rightarrow> int" where
  \<comment> \<open>Section 4.2 of the specification, for segwit-v0 and nested-segwit-v0, as it is worded.\<close>
  "spec_segwit_vsize n m =
    (let base = 10 + 64 * n + 31 * m;
         witness = 107 * n + 2
     in \<lceil>real_of_int (3 * base + (base + witness)) / 4\<rceil>)"

text \<open>
  The two ways the loop of \<open>SendMany\<close> may end according to the specification: a decision
  with a change \<open>\<ge> 0\<close>, or the selector's insufficient-funds error.
\<close>

definition reselected :: "(error + UTXO list \<times> int64 \<times> int64 \<times> int64) \<Rightarrow> bool" where
  "reselected r \<longleftrightarrow>
     (case r of
        Inl e \<Rightarrow> (case e of ErrSelectUTXOs (ErrInsufficientFunds a b) \<Rightarrow> True | _ \<Rightarrow> False)
      | Inr (sel, V, fee, ch) \<Rightarrow> 0 \<le>s ch)"

definition testWallet :: "int64 \<Rightarrow> BitcoinWallet" where
  "testWallet rate =
    \<lparr>privateKey = [], publicKey = [], network = TestNet3Params, apiURL = [],
     feeRate = rate\<rparr>"

definition coin :: "int64 \<Rightarrow> UTXO" where
  "coin v = \<lparr>TxID = ''00'', Vout = 0, Value = v\<rparr>"

text \<open>
  The words of section 4.1 of the specification.  An entry is offending when its amount is
  not positive; or its address is malformed (blank once trimmed, or not decodable for the
  configured network), belongs to a different network than the configured one, or yields
  no locking script; or its amount is below the dust threshold.  A resolved output carries
  the entry's decoded address, which is for the configured network, the script derived
  from it and the entry's amount.  \<open>errorIndex\<close> is the index an error message names, if
  it names one.
\<close>

definition offending :: "'addr collaborators \<Rightarrow> BitcoinWallet \<Rightarrow> PaymentOutput \<Rightarrow> bool" where
  "offending lib w output \<longleftrightarrow>
     Amount output \<le>s 0
     \<or> TrimSpace lib (Address output) = []
     \<or> (case DecodeAddress lib (TrimSpace lib (Address output)) (network w) of
           None \<Rightarrow> True
         | Some addr \<Rightarrow> \<not> IsForNet lib addr (network w) \<or> PayToAddrScript lib addr = None)
     \<or> Amount output <s dustThreshold"

definition resolves ::
  "'addr collaborators \<Rightarrow> BitcoinWallet \<Rightarrow> PaymentOutput \<Rightarrow> 'addr resolvedOutput \<Rightarrow> bool" where
  "resolves lib w output r \<longleftrightarrow>
     TrimSpace lib (Address output) \<noteq> []
     \<and> DecodeAddress lib (TrimSpace lib (Address output)) (network w) = Some (ro_address r)
     \<and> IsForNet lib (ro_address r) (network w)
     \<and> PayToAddrScript lib (ro_address r) = Some (ro_script r)
     \<and> ro_amount r = Amount output"

fun errorIndex :: "error \<Rightarrow> nat option" where
  "errorIndex (ErrAmountNotPositive i) = Some i"
| "errorIndex (ErrOutputAddress i e) = Some i"
| "errorIndex (ErrOutputScript i) = Some i"
| "errorIndex (ErrBelowDust i t) = Some i"
| "errorIndex e = None"

text \<open>
  Collaborators that always succeed, except that the address \<open>bad\<close> does not decode and
  the address \<open>foreign\<close> is of another network.
\<close>

definition testLib :: "UTXO list \<Rightarrow> string collaborators" where
  "testLib utxos =
    \<lparr>TrimSpace = (\<lambda>s. s),
     DecodeAddress = (\<lambda>s n. if s = ''bad'' then None else Some s),
     IsForNet = (\<lambda>a n. a \<noteq> ''foreign''),
     EncodeAddress = (\<lambda>a. a),
     PayToAddrScript = (\<lambda>a. Some [118]),
     NewHashFromStr = (\<lambda>s. Some [0]),
     Hash160 = (\<lambda>b. b),
     SerializeCompressed = (\<lambda>k. k),
     NewAddressPubKeyHash = (\<lambda>h n. Some ''legacy''),
     NewAddressWitnessPubKeyHash = (\<lambda>h n. Some ''segwit''),
     NewAddressScriptHashFromHash = (\<lambda>h n. Some ''nested''),
     NewAddressTaproot = (\<lambda>h n. Some ''taproot''),
     ComputeTaprootKeyNoScript = (\<lambda>k. k),
     SerializePubKey = (\<lambda>k. k),
     AddOp = (\<lambda>op b. map_option (\<lambda>s. s @ [op]) b),
     AddData = (\<lambda>d b. map_option (\<lambda>s. s @ of_nat (length d) # d) b),
     CalcSignatureHash = (\<lambda>s h tx i. Some [1]),
     CalcWitnessSigHash = (\<lambda>s f h tx i v. Some [2]),
     ecdsaSign = (\<lambda>k h. [48]),
     RawTxInTaprootSignature = (\<lambda>tx f i v s h k. Some [64]),
     Serialize = (\<lambda>tx. Some [0]),
     EncodeToString = (\<lambda>b. ''00''),
     httpGetUTXOs = (\<lambda>a. Some utxos),
     httpPostTx = (\<lambda>h. Some ''txid'')\<rparr>"

definition pay :: "string \<Rightarrow> int64 \<Rightarrow> PaymentOutput" where
  "pay a v = \<lparr>Address = a, Amount = v\<rparr>"

text \<open>
  One round of the loop of \<open>SignTransaction\<close>: the \<open>switch\<close> on the address type, as a
  function of its own (\<open>None\<close> is the \<open>default\<close> branch).
\<close>

definition signOne ::
  "'addr collaborators \<Rightarrow> BitcoinWallet \<Rightarrow> AddressType \<Rightarrow> bytes \<Rightarrow> int \<Rightarrow> UTXO \<Rightarrow> MsgTx \<Rightarrow>
   (error + MsgTx) option" where
  "signOne lib w fromAddrType fromScript i utxo tx =
       (if fromAddrType = P2PKH then Some (SignP2PKHTransaction lib w tx i fromScript)
        else if fromAddrType = P2WPKH then
          Some (SignP2WPKHTransaction lib w tx i (Value utxo) fromScript)
        else if fromAddrType = P2SH then
          Some (SignP2SHTransaction lib w tx i (Value utxo) fromScript)
        else if fromAddrType = P2TR then
          Some (SignP2TRTransaction lib w tx i (Value utxo) fromScript)
        else None)"



definition pushNonEmpty :: "'addr collaborators \<Rightarrow> bool" where
  "pushNonEmpty lib \<longleftrightarrow> (\<forall>d b s. AddData lib d b = Some s \<longrightarrow> s \<noteq> [])"

definition redeemScript :: "'addr collaborators \<Rightarrow> BitcoinWallet \<Rightarrow> bytes option" where
  "redeemScript lib w =
     Script (AddData lib (Hash160 lib (SerializeCompressed lib (publicKey w)))
       (AddOp lib OP_0 NewScriptBuilder))"

definition signedShape ::
  "'addr collaborators \<Rightarrow> BitcoinWallet \<Rightarrow> AddressType \<Rightarrow> TxIn \<Rightarrow> bool" where
  "signedShape lib w ty inp \<longleftrightarrow>
     (ty = P2SH \<longrightarrow>
        SignatureScript inp \<noteq> []
        \<and> (\<exists>redeem. redeemScript lib w = Some redeem
              \<and> Script (AddData lib redeem NewScriptBuilder) = Some (SignatureScript inp))
        \<and> (\<exists>sig. Witness inp = [sig @ [SigHashAll], SerializeCompressed lib (publicKey w)]))
     \<and> (ty = P2PKH \<longrightarrow> SignatureScript inp \<noteq> [] \<and> Witness inp = [])
     \<and> (ty = P2TR \<longrightarrow> length (Witness inp) = 1 \<and> SignatureScript inp = [])"

definition fresh :: "TxIn \<Rightarrow> bool" where
  "fresh inp \<longleftrightarrow> SignatureScript inp = [] \<and> Witness inp = []"

text \<open>Sample transactions for the concrete runs.\<close>

definition sampleIn :: TxIn where
  "sampleIn = NewTxIn (NewOutPoint [0] 0) [] []"

definition sampleTx :: MsgTx where
  "sampleTx = \<lparr>Version = 1, MsgTx_TxIn = [sampleIn], MsgTx_TxOut = [], LockTime = 0\<rparr>"

definition sampleOut :: "string resolvedOutput" where
  "sampleOut = \<lparr>ro_address = ''dest'', ro_script = [118], ro_amount = 1500\<rparr>"

definition signedSegwitIn :: TxIn where
  "signedSegwitIn = (NewTxIn (NewOutPoint [0] 0) [] []) \<lparr>Witness := [[48, 1], []]\<rparr>"

definition signedLegacyIn :: TxIn where
  "signedLegacyIn = (NewTxIn (NewOutPoint [0] 0) [] []) \<lparr>SignatureScript := [2, 48, 1, 0]\<rparr>"

section \<open>Signed 64-bit arithmetic\<close>

lemma wrap_cases:
  fixes k :: int
  assumes "- (2^64) \<le> k" "k < 2^64"
  shows "signed_take_bit 63 k = k \<or> signed_take_bit 63 k = k + 2^64 \<or> signed_take_bit 63 k = k - 2^64"
proof -
  have e: "signed_take_bit 63 k = (k + 2^63) mod 2^64 - 2^63"
    by (simp add: signed_take_bit_eq_take_bit_shift take_bit_eq_mod)
  define q where "q = (k + 2^63) div (2^64 :: int)"
  have m: "(k + 2^63) mod 2^64 = k + 2^63 - 2^64 * q"
    unfolding q_def by (simp add: minus_mult_div_eq_mod)
  have "- 1 \<le> q" unfolding q_def using assms by (simp add: pos_le_divide_eq div_int_pos_iff)
  moreover have "q \<le> 1" unfolding q_def using assms by simp
  ultimately have "q = -1 \<or> q = 0 \<or> q = 1" by auto
  then show ?thesis unfolding e m by auto
qed

lemma sint_sub_cases:
  fixes a b :: int64
  shows "sint (a - b) = sint a - sint b \<or> sint (a - b) = sint a - sint b + 2^64 \<or> sint (a - b) = sint a - sint b - 2^64"
proof -
  have e: "sint (a - b) = signed_take_bit 63 (sint a - sint b)" by (simp add: sint_word_ariths)
  have "- (2^63) \<le> sint a" "sint a < 2^63" "- (2^63) \<le> sint b" "sint b < 2^63"
    using sint_ge [of a] sint_lt [of a] sint_ge [of b] sint_lt [of b] by simp_all
  then have "- (2^64) \<le> sint a - sint b" "sint a - sint b < 2^64" by simp_all
  then show ?thesis unfolding e by (rule wrap_cases)
qed

lemma sint_add_cases:
  fixes a b :: int64
  shows "sint (a + b) = sint a + sint b \<or> sint (a + b) = sint a + sint b + 2^64 \<or> sint (a + b) = sint a + sint b - 2^64"
proof -
  have e: "sint (a + b) = signed_take_bit 63 (sint a + sint b)" by (simp add: sint_word_ariths)
  have "- (2^63) \<le> sint a" "sint a < 2^63" "- (2^63) \<le> sint b" "sint b < 2^63"
    using sint_ge [of a] sint_lt [of a] sint_ge [of b] sint_lt [of b] by simp_all
  then have "- (2^64) \<le> sint a + sint b" "sint a + sint b < 2^64" by simp_all
  then show ?thesis unfolding e by (rule wrap_cases)
qed

lemma sint_bounds64: "- (2^63) \<le> sint (a :: int64)" "sint (a :: int64) < 2^63"
  using sint_ge [of a] sint_lt [of a] by simp_all

lemma sint_sub_exact:
  fixes a b :: int64
  assumes "- (2^63) \<le> sint a - sint b" "sint a - sint b < 2^63"
  shows "sint (a - b) = sint a - sint b"
  using sint_sub_cases [of a b] sint_bounds64 [of "a - b"] assms by auto

lemma sint_add_exact:
  fixes a b :: int64
  assumes "- (2^63) \<le> sint a + sint b" "sint a + sint b < 2^63"
  shows "sint (a + b) = sint a + sint b"
  using sint_add_cases [of a b] sint_bounds64 [of "a + b"] assms by auto

lemma sint_of_int_small:
  "- (2^63) \<le> k \<Longrightarrow> k < 2^63 \<Longrightarrow> sint (word_of_int k :: int64) = k"
  by (simp add: signed_take_bit_int_eq_self Word.sint_sbintrunc')

lemma go_div_4_nonneg:
  assumes "0 \<le> k" "k < 2^63"
  shows "sint (go_div (word_of_int k) 4) = k div 4"
proof -
  have s: "sint (word_of_int k :: int64) = k"
    using assms by (simp add: sint_of_int_small)
  have "k sdiv 4 = k div 4"
    using assms by (simp add: signed_divide_int_def sgn_if)
  moreover have "k div 4 < 2^63" "- (2^63) \<le> k div 4"
    using assms by auto
  ultimately show ?thesis
    by (simp add: go_div_def s sint_of_int_small)
qed

lemmas eval_defs = computeFeeAndChange_def estimateFee_def EstimateTxSize_def testWallet_def
  coin_def P2PKH_def P2WPKH_def P2SH_def P2TR_def dustThreshold_def totalBalance_def Let_def
  go_div_def signed_divide_int_def word_sle_eq word_sless_alt

section \<open>The size estimate\<close>

text \<open>
  C2 (as stated): for all \<open>n\<close>, \<open>m\<close> the estimate for segwit-v0 and for nested-segwit-v0 is
  \<open>ceil((3 base + (base + witness)) / 4)\<close> with \<open>base = 10 + 64 n + 31 m\<close> and
  \<open>witness = 107 n + 2\<close>.  It fails for one input and one output: the segwit-v0 estimate is
  132, the quotient rounded down, where the formula gives 133, and the nested-segwit
  estimate is 219, computed from the base \<open>10 + 148 n + 34 m\<close>.
\<close>

theorem EstimateTxSize_spec_counterexample:
  "sint (EstimateTxSize 1 1 P2WPKH) = 132 \<and> spec_segwit_vsize 1 1 = 133
   \<and> sint (EstimateTxSize 1 1 P2SH) = 219"
  by (simp add: eval_defs spec_segwit_vsize_def)

text \<open>
  C2 (amended): while the arithmetic stays within 64 bits, the segwit-v0 estimate is
  \<open>(3 base + (base + witness)) div 4\<close>, rounded down, with \<open>base = 10 + 64 n + 31 m\<close> and
  \<open>witness = 107 n + 2\<close>; the nested-segwit-v0 estimate is the same quotient with the
  legacy base \<open>10 + 148 n + 34 m\<close>.
\<close>

theorem EstimateTxSize_witness_families:
  fixes n m :: nat
  assumes "699 * n + 136 * m + 42 < 2 ^ 63"
  shows "sint (EstimateTxSize (of_nat n) (of_nat m) P2WPKH) =
           (3 * (10 + 64 * int n + 31 * int m)
            + ((10 + 64 * int n + 31 * int m) + (107 * int n + 2))) div 4
       \<and> sint (EstimateTxSize (of_nat n) (of_nat m) P2SH) =
           (3 * (10 + 148 * int n + 34 * int m)
            + ((10 + 148 * int n + 34 * int m) + (107 * int n + 2))) div 4"
proof -
  let ?k = "(10 + 64 * int n + 31 * int m) * 3 + (10 + 64 * int n + 31 * int m)
            + (107 * int n + 2)"
  let ?l = "(10 + 148 * int n + 34 * int m) * 3 + (10 + 148 * int n + 34 * int m)
            + (107 * int n + 2)"
  have "int (699 * n + 136 * m + 42) < 2 ^ 63"
    using assms by (simp only: flip: of_nat_less_iff [where 'a = int]) simp
  then have b: "0 \<le> ?k" "?k < 2 ^ 63" "0 \<le> ?l" "?l < 2 ^ 63"
    by simp_all
  have e: "EstimateTxSize (of_nat n) (of_nat m) P2WPKH = go_div (word_of_int ?k) 4"
    by (simp add: EstimateTxSize_def P2PKH_def P2WPKH_def Let_def)
  have f: "EstimateTxSize (of_nat n) (of_nat m) P2SH = go_div (word_of_int ?l) 4"
    by (simp add: EstimateTxSize_def P2PKH_def P2WPKH_def P2SH_def Let_def)
  show ?thesis
    unfolding e f using go_div_4_nonneg [OF b(1,2)] go_div_4_nonneg [OF b(3,4)]
    by (simp add: algebra_simps)
qed

theorem EstimateTxSize_witness_families_witness:
  "699 * (1 :: nat) + 136 * 1 + 42 < 2 ^ 63
   \<and> sint (EstimateTxSize 1 1 P2WPKH) = 132 \<and> sint (EstimateTxSize 1 1 P2SH) = 219"
  using EstimateTxSize_witness_families [of 1 1] by simp

section \<open>Fee and change\<close>

lemma totalBalance_Nil: "totalBalance [] = 0"
  by (simp add: totalBalance_def)

text \<open>
  C1 (as stated): whenever \<open>computeFeeAndChange\<close> returns a change \<open>\<ge> 0\<close>, the inputs'
  total is the outputs' total plus fee plus change, and the change is 0 or above the dust
  threshold.  With the fee rate at the largest \<open>int64\<close> the fee products wrap around: for
  one coin of 1000 and outputs of 1100 the function returns the change 126.
\<close>

theorem computeFeeAndChange_dust_counterexample:
  "computeFeeAndChange (testWallet 9223372036854775807) P2PKH 1100 1 [coin 1000] 1000
     = (- 226, 126)
   \<and> (0 :: int64) <s 126 \<and> (126 :: int64) \<le>s dustThreshold"
  by (simp add: eval_defs)

text \<open>
  C1 (amended): for a coin selection of total \<open>V\<close> and outputs of total \<open>R\<close> with
  \<open>0 \<le> R \<le> V\<close>, whenever \<open>computeFeeAndChange\<close> returns a change \<open>\<ge> 0\<close>, then
  \<open>V = R + fee + change\<close> as integers, and either the change is 0 and the fee is \<open>V - R\<close>,
  or the change is above the dust threshold.
\<close>

theorem computeFeeAndChange_decision:
  assumes r: "computeFeeAndChange w ty R k utxos V = (fee, change)"
      and c: "0 \<le>s change"
      and v: "V = totalBalance utxos"
      and r0: "0 \<le>s R" and rv: "R \<le>s V"
  shows "sint V = sint R + sint fee + sint change \<and>
         ((change = 0 \<and> sint fee = sint V - sint R) \<or> dustThreshold <s change)"
proof -
  have R0: "0 \<le> sint R" and RV: "sint R \<le> sint V"
    using r0 rv by (simp_all add: word_sle_eq)
  have d: "sint (V - R) = sint V - sint R"
    using R0 RV sint_bounds64 [of V] sint_bounds64 [of R] by (intro sint_sub_exact) auto
  show ?thesis
  proof (cases "utxos = []")
    case True
    then have fc: "fee = 0" "change = - R" using r by (simp_all add: computeFeeAndChange_def)
    have V0: "V = 0" using v True by (simp add: totalBalance_Nil)
    have "sint R \<le> 0" using RV V0 by simp
    then have "sint R = sint (0 :: int64)" using R0 by simp
    then have "R = 0" by (simp only: word_eq_iff_signed [symmetric])
    then show ?thesis using fc V0 by simp
  next
    case False
    define f1 where "f1 = estimateFee w (of_nat (length utxos)) k ty"
    define f2 where "f2 = estimateFee w (of_nat (length utxos)) (k + 1) ty"
    from r False c have
      "(dustThreshold <s V - R - f2 \<and> fee = f2 \<and> change = V - R - f2) \<or>
       (\<not> V - R <s 0 \<and> fee = V - R \<and> change = 0) \<or>
       (V - R <s 0)"
      by (auto simp: computeFeeAndChange_def Let_def f1_def f2_def word_sle_eq word_sless_alt split: if_splits)
    then consider (change) "dustThreshold <s V - R - f2" "fee = f2" "change = V - R - f2"
      | (fold) "fee = V - R" "change = 0" | (neg) "V - R <s 0" by blast
    then show ?thesis
    proof cases
      case change
      have big: "546 < sint (V - R - f2)" using change(1) by (simp add: word_sless_alt dustThreshold_def)
      have "sint (V - R - f2) = sint V - sint R - sint f2"
        using sint_sub_cases [of "V - R" f2] d big R0 RV sint_bounds64 [of V] sint_bounds64 [of f2]
          sint_bounds64 [of "V - R - f2"]
        by auto
      then show ?thesis using change by auto
    next
      case fold
      then show ?thesis using d by simp
    next
      case neg
      then show ?thesis using d RV by (simp add: word_sless_alt)
    qed
  qed
qed


theorem computeFeeAndChange_decision_witness:
  "computeFeeAndChange (testWallet 1) P2PKH 1500 1 [coin 3000] 3000 = (226, 1274)
   \<and> sint (3000 :: int64) = sint (1500 :: int64) + sint (226 :: int64) + sint (1274 :: int64)
   \<and> dustThreshold <s 1274"
proof -
  have e: "computeFeeAndChange (testWallet 1) P2PKH 1500 1 [coin 3000] 3000 = (226, 1274)"
    by (simp add: eval_defs)
  have "(0 :: int64) \<le>s 1274" "3000 = totalBalance [coin 3000]" "(0 :: int64) \<le>s 1500"
       "(1500 :: int64) \<le>s 3000"
    by (simp_all add: eval_defs)
  from computeFeeAndChange_decision [OF e this] e show ?thesis by simp
qed

section \<open>Coin selection\<close>

lemma selectLoop_Inr:
  "selectLoop xs sel tot T = Inr (sel', tot') \<Longrightarrow>
   \<exists>n. 0 < n \<and> n \<le> length xs \<and> sel' = sel @ take n xs
     \<and> tot' = foldl (\<lambda>acc u. acc + Value u) tot (take n xs) \<and> T \<le>s tot'
     \<and> (\<forall>j. 0 < j \<and> j < n \<longrightarrow> foldl (\<lambda>acc u. acc + Value u) tot (take j xs) <s T)"
proof (induction xs arbitrary: sel tot)
  case Nil
  then show ?case by simp
next
  case (Cons u rest)
  show ?case
  proof (cases "T \<le>s tot + Value u")
    case True
    with Cons.prems have "sel' = sel @ [u]" "tot' = tot + Value u" by (simp_all add: Let_def)
    with True show ?thesis by (intro exI [of _ 1]) simp
  next
    case False
    with Cons.prems have "selectLoop rest (sel @ [u]) (tot + Value u) T = Inr (sel', tot')"
      by (simp add: Let_def)
    from Cons.IH [OF this] obtain n where n: "0 < n" "n \<le> length rest"
      "sel' = (sel @ [u]) @ take n rest"
      "tot' = foldl (\<lambda>acc u. acc + Value u) (tot + Value u) (take n rest)" "T \<le>s tot'"
      "\<forall>j. 0 < j \<and> j < n \<longrightarrow> foldl (\<lambda>acc u. acc + Value u) (tot + Value u) (take j rest) <s T"
      by blast
    have "\<forall>j. 0 < j \<and> j < Suc n \<longrightarrow> foldl (\<lambda>acc u. acc + Value u) tot (take j (u # rest)) <s T"
    proof (intro allI impI)
      fix j assume j: "0 < j \<and> j < Suc n"
      then obtain i where i: "j = Suc i" by (cases j) auto
      show "foldl (\<lambda>acc u. acc + Value u) tot (take j (u # rest)) <s T"
      proof (cases "i = 0")
        case True
        then show ?thesis using False i by (simp add: word_sless_alt word_sle_eq)
      next
        case False
        then show ?thesis using n(6) i j by simp
      qed
    qed
    with n show ?thesis by (intro exI [of _ "Suc n"]) simp
  qed
qed

lemma selectLoop_Inl_iff:
  assumes "\<forall>u\<in>set xs. 0 \<le> sint (Value u)"
      and "sint tot + (\<Sum>u\<leftarrow>xs. sint (Value u)) < 2 ^ 63"
      and "xs = [] \<longrightarrow> sint tot < sint T"
  shows "(\<exists>e. selectLoop xs sel tot T = Inl e) \<longleftrightarrow> sint tot + (\<Sum>u\<leftarrow>xs. sint (Value u)) < sint T"
  using assms
proof (induction xs arbitrary: sel tot)
  case Nil
  then show ?case by simp
next
  case (Cons u rest)
  have v: "0 \<le> sint (Value u)" using Cons.prems(1) by simp
  have r: "0 \<le> (\<Sum>u\<leftarrow>rest. sint (Value u))"
    using Cons.prems(1) by (intro sum_list_nonneg) auto
  have ex: "sint (tot + Value u) = sint tot + sint (Value u)"
    using v r Cons.prems(2) sint_bounds64 [of tot] by (intro sint_add_exact) auto
  show ?case
  proof (cases "T \<le>s tot + Value u")
    case True
    then have "sint T \<le> sint tot + sint (Value u)" by (simp add: word_sle_eq ex)
    with True r show ?thesis by (simp add: Let_def)
  next
    case False
    then have lt: "sint (tot + Value u) < sint T" by (simp add: word_sle_eq)
    have "(\<exists>e. selectLoop rest (sel @ [u]) (tot + Value u) T = Inl e) \<longleftrightarrow>
          sint (tot + Value u) + (\<Sum>u\<leftarrow>rest. sint (Value u)) < sint T"
      using Cons.prems lt by (intro Cons.IH) (auto simp: ex)
    with False show ?thesis by (simp add: Let_def ex add.assoc)
  qed
qed

lemma sum_list_insort_key:
  "(\<Sum>u\<leftarrow>insort_key k x xs. f u) = (f x :: int) + (\<Sum>u\<leftarrow>xs. f u)"
  by (induction xs) auto

lemma sum_list_sortByValue:
  "(\<Sum>u\<leftarrow>sortByValue xs. f u) = (\<Sum>u\<leftarrow>xs. (f u :: int))"
  unfolding sortByValue_def by (induction xs) (auto simp: sum_list_insort_key)

lemma set_sortByValue: "set (sortByValue xs) = set xs"
  by (simp add: sortByValue_def)

lemma length_sortByValue: "length (sortByValue xs) = length xs"
  by (simp add: sortByValue_def)

text \<open>
  C3 (as stated): \<open>SelectUTXOs\<close> fails exactly when the coin list is empty or the sum of
  all coins is below the target.  \<open>Value\<close> is a signed field that nothing validates: for two
  coins of value \<open>-1\<close> and the target \<open>-1\<close> the first coin already reaches the target and the
  selection succeeds, while the sum of all coins, \<open>-2\<close>, is below the target.
\<close>

theorem SelectUTXOs_fails_iff_counterexample:
  "SelectUTXOs [coin (- 1), coin (- 1)] (- 1) = Inr ([coin (- 1)], - 1)
   \<and> totalBalance [coin (- 1), coin (- 1)] <s - 1"
  by (simp add: SelectUTXOs_def sortByValue_def eval_defs)

text \<open>
  C3 (amended): the coins are sorted by ascending value; a successful selection is a
  non-empty prefix of the sorted list that ends at the first coin where the running total
  reaches the target, and the returned total is the sum of the selected coins and is at
  least the target.  For coins of non-negative value whose sum fits in 64 bits,
  \<open>SelectUTXOs\<close> fails exactly when the list is empty or the sum of all coins is below the
  target.
\<close>

theorem SelectUTXOs_greedy:
  "sorted (map (\<lambda>u. sint (Value u)) (sortByValue utxos))
   \<and> set (sortByValue utxos) = set utxos
   \<and> (\<forall>sel tot. SelectUTXOs utxos T = Inr (sel, tot) \<longrightarrow>
      (\<exists>n. 0 < n \<and> n \<le> length utxos \<and> sel = take n (sortByValue utxos)
         \<and> tot = totalBalance sel \<and> T \<le>s tot
         \<and> (\<forall>j. 0 < j \<and> j < n \<longrightarrow> totalBalance (take j (sortByValue utxos)) <s T)))
   \<and> ((\<forall>u\<in>set utxos. 0 \<le>s Value u) \<and> (\<Sum>u\<leftarrow>utxos. sint (Value u)) < 2 ^ 63 \<longrightarrow>
       ((\<exists>e. SelectUTXOs utxos T = Inl e) \<longleftrightarrow>
          utxos = [] \<or> (\<Sum>u\<leftarrow>utxos. sint (Value u)) < sint T))"
proof (intro conjI allI impI)
  show "sorted (map (\<lambda>u. sint (Value u)) (sortByValue utxos))"
    by (simp add: sortByValue_def)
  show "set (sortByValue utxos) = set utxos"
    by (rule set_sortByValue)
next
  fix sel tot
  assume a: "SelectUTXOs utxos T = Inr (sel, tot)"
  then have "selectLoop (sortByValue utxos) [] 0 T = Inr (sel, tot)"
    by (simp add: SelectUTXOs_def split: if_splits)
  from selectLoop_Inr [OF this]
  show "\<exists>n. 0 < n \<and> n \<le> length utxos \<and> sel = take n (sortByValue utxos)
         \<and> tot = totalBalance sel \<and> T \<le>s tot
         \<and> (\<forall>j. 0 < j \<and> j < n \<longrightarrow> totalBalance (take j (sortByValue utxos)) <s T)"
    by (auto simp: totalBalance_def length_sortByValue)
next
  assume h: "(\<forall>u\<in>set utxos. 0 \<le>s Value u) \<and> (\<Sum>u\<leftarrow>utxos. sint (Value u)) < 2 ^ 63"
  show "(\<exists>e. SelectUTXOs utxos T = Inl e) \<longleftrightarrow>
          utxos = [] \<or> (\<Sum>u\<leftarrow>utxos. sint (Value u)) < sint T"
  proof (cases "utxos = []")
    case True
    then show ?thesis by (simp add: SelectUTXOs_def)
  next
    case False
    then have ne: "sortByValue utxos \<noteq> []"
      using length_sortByValue [of utxos] by (cases "sortByValue utxos") auto
    have "(\<exists>e. selectLoop (sortByValue utxos) [] 0 T = Inl e) \<longleftrightarrow>
          sint (0 :: int64) + (\<Sum>u\<leftarrow>sortByValue utxos. sint (Value u)) < sint T"
      using h ne by (intro selectLoop_Inl_iff) (auto simp: set_sortByValue sum_list_sortByValue word_sle_eq)
    with False show ?thesis by (simp add: SelectUTXOs_def sum_list_sortByValue)
  qed
qed

theorem SelectUTXOs_greedy_witness:
  "0 \<le>s Value (coin 500) \<and> 0 \<le>s Value (coin 300)
   \<and> sint (Value (coin 500)) + sint (Value (coin 300)) < 2 ^ 63
   \<and> SelectUTXOs [coin 500, coin 300] 400 = Inr ([coin 300, coin 500], 800)
   \<and> \<not> sint (Value (coin 500)) + sint (Value (coin 300)) < sint (400 :: int64)"
proof -
  have h: "(\<forall>u\<in>set [coin 500, coin 300]. 0 \<le>s Value u)
           \<and> (\<Sum>u\<leftarrow>[coin 500, coin 300]. sint (Value u)) < 2 ^ 63"
    by (simp add: eval_defs)
  have e: "SelectUTXOs [coin 500, coin 300] 400 = Inr ([coin 300, coin 500], 800)"
    by (simp add: SelectUTXOs_def sortByValue_def eval_defs)
  from SelectUTXOs_greedy [of "[coin 500, coin 300]" 400] h
  have "(\<exists>e. SelectUTXOs [coin 500, coin 300] 400 = Inl e) \<longleftrightarrow>
        [coin 500, coin 300] = [] \<or> (\<Sum>u\<leftarrow>[coin 500, coin 300]. sint (Value u)) < sint (400 :: int64)"
    by blast
  with e have "\<not> (\<Sum>u\<leftarrow>[coin 500, coin 300]. sint (Value u)) < sint (400 :: int64)"
    by simp
  with h e show ?thesis by simp
qed

section \<open>The reselection loop\<close>

lemma foldl_Value_exact:
  assumes "\<forall>u\<in>set xs. 0 \<le> sint (Value u)"
      and "sint tot + (\<Sum>u\<leftarrow>xs. sint (Value u)) < 2 ^ 63"
  shows "sint (foldl (\<lambda>acc u. acc + Value u) tot xs) = sint tot + (\<Sum>u\<leftarrow>xs. sint (Value u))"
  using assms
proof (induction xs arbitrary: tot)
  case Nil
  then show ?case by simp
next
  case (Cons u rest)
  have v: "0 \<le> sint (Value u)" using Cons.prems(1) by simp
  have r: "0 \<le> (\<Sum>u\<leftarrow>rest. sint (Value u))"
    using Cons.prems(1) by (intro sum_list_nonneg) auto
  have ex: "sint (tot + Value u) = sint tot + sint (Value u)"
    using v r Cons.prems(2) sint_bounds64 [of tot] by (intro sint_add_exact) auto
  have "sint (foldl (\<lambda>acc u. acc + Value u) (tot + Value u) rest)
          = sint (tot + Value u) + (\<Sum>u\<leftarrow>rest. sint (Value u))"
    using Cons.prems by (intro Cons.IH) (auto simp: ex)
  then show ?case by (simp add: ex)
qed

lemma sum_list_take_le:
  assumes "\<forall>u\<in>set xs. 0 \<le> f u"
  shows "(\<Sum>u\<leftarrow>take j xs. f u) \<le> (\<Sum>u\<leftarrow>xs. (f u :: int))"
proof -
  have "(\<Sum>u\<leftarrow>xs. f u) = (\<Sum>u\<leftarrow>take j xs. f u) + (\<Sum>u\<leftarrow>drop j xs. f u)"
    by (metis append_take_drop_id map_append sum_list_append)
  moreover have "0 \<le> (\<Sum>u\<leftarrow>drop j xs. f u)"
    using assms by (intro sum_list_nonneg) (auto dest: in_set_dropD)
  ultimately show ?thesis by simp
qed

lemma sum_list_take_mono:
  assumes "\<forall>u\<in>set xs. 0 \<le> f u" "i \<le> j"
  shows "(\<Sum>u\<leftarrow>take i xs. f u) \<le> (\<Sum>u\<leftarrow>take j xs. (f u :: int))"
proof -
  have "take i xs = take i (take j xs)" using assms(2) by (simp add: min_def)
  moreover have "\<forall>u\<in>set (take j xs). 0 \<le> f u" using assms(1) by (auto dest: in_set_takeD)
  ultimately show ?thesis using sum_list_take_le [of "take j xs" f i] by simp
qed

lemma totalBalance_take_exact:
  assumes "\<forall>u\<in>set xs. 0 \<le> sint (Value u)"
      and "(\<Sum>u\<leftarrow>xs. sint (Value u)) < 2 ^ 63"
  shows "sint (totalBalance (take j xs)) = (\<Sum>u\<leftarrow>take j xs. sint (Value u))"
proof -
  have "\<forall>u\<in>set (take j xs). 0 \<le> sint (Value u)" using assms(1) by (auto dest: in_set_takeD)
  moreover have "sint (0 :: int64) + (\<Sum>u\<leftarrow>take j xs. sint (Value u)) < 2 ^ 63"
    using sum_list_take_le [OF assms(1), of j] assms(2) by simp
  ultimately show ?thesis unfolding totalBalance_def
    using foldl_Value_exact [of "take j xs" 0] by simp
qed

lemma SelectUTXOs_Inr:
  assumes "SelectUTXOs utxos T = Inr (sel, tot)"
  shows "\<exists>n. 0 < n \<and> n \<le> length utxos \<and> sel = take n (sortByValue utxos)
         \<and> tot = totalBalance sel \<and> T \<le>s tot"
proof -
  from assms have "selectLoop (sortByValue utxos) [] 0 T = Inr (sel, tot)"
    by (simp add: SelectUTXOs_def split: if_splits)
  from selectLoop_Inr [OF this] show ?thesis
    by (auto simp: totalBalance_def length_sortByValue)
qed

lemma SelectUTXOs_Inl:
  assumes "SelectUTXOs utxos T = Inl e" "utxos \<noteq> []"
  shows "\<exists>a b. e = ErrInsufficientFunds a b"
proof -
  have "selectLoop xs sel tot T = Inl e \<Longrightarrow> \<exists>a b. e = ErrInsufficientFunds a b" for xs sel tot
    by (induction xs arbitrary: sel tot) (auto simp: Let_def split: if_splits)
  then show ?thesis using assms by (auto simp: SelectUTXOs_def)
qed

lemma computeFeeAndChange_negative:
  assumes "computeFeeAndChange w ty R k sel V = (fee, ch)"
      and "sel \<noteq> []" and "\<not> 0 \<le>s ch" and "\<not> V - R <s 0"
  shows "fee = estimateFee w (of_nat (length sel)) k ty \<and> ch = V - R - fee"
  using assms
  by (auto simp: computeFeeAndChange_def Let_def dustThreshold_def word_sle_eq word_sless_alt
           split: if_splits)


lemma reselectRounds_Some:
  "reselectRounds n w ty utxos R k T = Some r \<Longrightarrow> reselectLoop w ty utxos R k T = Some r"
proof (induction n arbitrary: T)
  case 0
  then show ?case by simp
next
  case (Suc n)
  show ?case
  proof (cases "SelectUTXOs utxos T")
    case (Inl e)
    with Suc.prems show ?thesis by (subst reselectLoop.simps) simp
  next
    case (Inr p)
    obtain sel V where p: "p = (sel, V)" by (cases p)
    obtain fee ch where c: "computeFeeAndChange w ty R k sel V = (fee, ch)"
      by (cases "computeFeeAndChange w ty R k sel V")
    show ?thesis
    proof (cases "0 \<le>s ch")
      case True
      with Suc.prems Inr p c show ?thesis by (subst reselectLoop.simps) simp
    next
      case False
      with Suc.prems Inr p c have "reselectRounds n w ty utxos R k (R + fee) = Some r" by simp
      from Suc.IH [OF this] Inr p c False show ?thesis by (subst reselectLoop.simps) simp
    qed
  qed
qed

lemma reselectRounds_mono:
  "reselectRounds a w ty utxos R k T = Some r \<Longrightarrow> a \<le> b \<Longrightarrow>
   reselectRounds b w ty utxos R k T = Some r"
proof (induction a arbitrary: b T)
  case 0
  then show ?case by simp
next
  case (Suc a)
  then obtain b' where b: "b = Suc b'" "a \<le> b'" by (cases b) auto
  show ?case
  proof (cases "SelectUTXOs utxos T")
    case (Inl e)
    with Suc.prems b show ?thesis by simp
  next
    case (Inr p)
    obtain sel V where p: "p = (sel, V)" by (cases p)
    obtain fee ch where c: "computeFeeAndChange w ty R k sel V = (fee, ch)"
      by (cases "computeFeeAndChange w ty R k sel V")
    show ?thesis
    proof (cases "0 \<le>s ch")
      case True
      with Suc.prems Inr p c b show ?thesis by simp
    next
      case False
      with Suc.prems Inr p c have "reselectRounds a w ty utxos R k (R + fee) = Some r" by simp
      from Suc.IH [OF this b(2)] Inr p c False b show ?thesis by simp
    qed
  qed
qed

lemma reselectRounds_terminates_aux:
  assumes nonneg: "\<forall>u\<in>set utxos. 0 \<le> sint (Value u)"
      and fits: "(\<Sum>u\<leftarrow>utxos. sint (Value u)) < 2 ^ 62"
      and R: "0 \<le> sint R" "sint R < 2 ^ 62"
      and fee: "\<forall>n. 0 < n \<and> n \<le> length utxos \<longrightarrow>
                 0 \<le> sint (estimateFee w (of_nat n) k ty)
                 \<and> sint (estimateFee w (of_nat n) k ty) < 2 ^ 62"
      and ne: "utxos \<noteq> []"
  shows "sint R \<le> sint T \<Longrightarrow>
         (\<forall>j. 0 < j \<and> j \<le> m \<longrightarrow> (\<Sum>u\<leftarrow>take j (sortByValue utxos). sint (Value u)) < sint T) \<Longrightarrow>
         \<exists>r. reselectRounds (Suc (length utxos - m)) w ty utxos R k T = Some r \<and> reselected r"
proof (induction "length utxos - m" arbitrary: m T rule: less_induct)
  case less
  let ?xs = "sortByValue utxos"
  let ?S = "\<lambda>j. (\<Sum>u\<leftarrow>take j ?xs. sint (Value u))"
  have nn: "\<forall>u\<in>set ?xs. 0 \<le> sint (Value u)" using nonneg by (simp add: set_sortByValue)
  have ft: "(\<Sum>u\<leftarrow>?xs. sint (Value u)) < 2 ^ 62" using fits by (simp add: sum_list_sortByValue)
  then have ft63: "(\<Sum>u\<leftarrow>?xs. sint (Value u)) < 2 ^ 63" by simp
  show ?case
  proof (cases "SelectUTXOs utxos T")
    case (Inl e)
    then obtain a b where "e = ErrInsufficientFunds a b" using SelectUTXOs_Inl ne by blast
    with Inl show ?thesis by (simp add: reselected_def)
  next
    case (Inr p)
    obtain sel V where p: "p = (sel, V)" by (cases p)
    from SelectUTXOs_Inr [OF Inr [unfolded p]] obtain n where
      n: "0 < n" "n \<le> length utxos" "sel = take n ?xs" "V = totalBalance sel" "T \<le>s V"
      by blast
    have len: "length sel = n" using n(2,3) by (simp add: length_sortByValue)
    have selne: "sel \<noteq> []" using len n(1) by auto
    have V: "sint V = ?S n" using totalBalance_take_exact [OF nn ft63, of n] n(3,4) by simp
    have Vlo: "0 \<le> sint V" unfolding V using nn by (intro sum_list_nonneg) (auto dest: in_set_takeD)
    have Vhi: "sint V < 2 ^ 62" unfolding V using sum_list_take_le [OF nn, of n] ft by simp
    have TV: "sint T \<le> sint V" using n(5) by (simp add: word_sle_eq)
    have mn: "m < n"
    proof (rule ccontr)
      assume "\<not> m < n"
      then have "?S n < sint T" using less.prems(2) n(1) by simp
      then show False using TV V by simp
    qed
    obtain fee ch where c: "computeFeeAndChange w ty R k sel V = (fee, ch)"
      by (cases "computeFeeAndChange w ty R k sel V")
    show ?thesis
    proof (cases "0 \<le>s ch")
      case True
      with Inr p c show ?thesis by (simp add: reselected_def)
    next
      case False
      have d: "sint (V - R) = sint V - sint R"
        using R Vlo Vhi by (intro sint_sub_exact) auto
      have "\<not> V - R <s 0" using d TV less.prems(1) by (simp add: word_sless_alt)
      from computeFeeAndChange_negative [OF c selne False this]
      have f: "fee = estimateFee w (of_nat n) k ty" and ch: "ch = V - R - fee"
        by (simp_all add: len)
      have fb: "0 \<le> sint fee" "sint fee < 2 ^ 62" using fee n(1,2) f by auto
      have "sint ch = sint (V - R) - sint fee"
        unfolding ch using d R Vlo Vhi fb by (intro sint_sub_exact) auto
      then have short: "sint V < sint R + sint fee"
        using False d by (simp add: word_sle_eq)
      have T': "sint (R + fee) = sint R + sint fee"
        using R fb by (intro sint_add_exact) auto
      have step: "reselectRounds (Suc (length utxos - m)) w ty utxos R k T
                  = reselectRounds (length utxos - m) w ty utxos R k (R + fee)"
        using Inr p c False by simp
      have "\<exists>r. reselectRounds (Suc (length utxos - n)) w ty utxos R k (R + fee) = Some r
                \<and> reselected r"
      proof (rule less.hyps [of n])
        show "length utxos - n < length utxos - m" using mn n(2) by simp
        show "sint R \<le> sint (R + fee)" using T' fb by simp
        show "\<forall>j. 0 < j \<and> j \<le> n \<longrightarrow> ?S j < sint (R + fee)"
        proof (intro allI impI)
          fix j assume "0 < j \<and> j \<le> n"
          then have "?S j \<le> ?S n" using sum_list_take_mono [OF nn, of j n] by simp
          then show "?S j < sint (R + fee)" using short V T' by simp
        qed
      qed
      then obtain r where r: "reselectRounds (Suc (length utxos - n)) w ty utxos R k (R + fee) = Some r"
        "reselected r" by blast
      have "Suc (length utxos - n) \<le> length utxos - m" using mn n(2) by simp
      from reselectRounds_mono [OF r(1) this] r(2) step show ?thesis by simp
    qed
  qed
qed

lemma reselectLoop_stuck_step:
  "computeFeeAndChange (testWallet 9223372036854775807) P2TR 600 1 [coin 1000] 1000
     = (9223372036854775687, - 9223372036854775287)"
  by (simp add: eval_defs)

lemma select_600: "SelectUTXOs [coin 1000] 600 = Inr ([coin 1000], 1000)"
  by (simp add: SelectUTXOs_def sortByValue_def eval_defs)

lemma select_neg: "SelectUTXOs [coin 1000] 9223372036854776287 = Inr ([coin 1000], 1000)"
  by (simp add: SelectUTXOs_def sortByValue_def eval_defs)

text \<open>
  C4 (as stated): for every non-empty coin set, output list and fee rate the loop of
  \<open>SendMany\<close> ends after a bounded number of rounds.  With the fee rate at the largest
  \<open>int64\<close>, a taproot wallet, one coin of 1000 and one output of 600, the fee for one input
  and one output wraps to \<open>2^63 - 121\<close>; the change is negative, the next required amount
  \<open>600 + fee\<close> wraps to a negative number, the same coin is selected again, and the loop
  never ends.
\<close>

theorem reselectLoop_diverges:
  "reselectLoop (testWallet 9223372036854775807) P2TR [coin 1000] 600 1 600 = None"
proof -
  let ?w = "testWallet 9223372036854775807"
  define P :: "BitcoinWallet \<Rightarrow> AddressType \<Rightarrow> UTXO list \<Rightarrow> int64 \<Rightarrow> go_int \<Rightarrow> int64 \<Rightarrow>
               (error + UTXO list \<times> int64 \<times> int64 \<times> int64) \<Rightarrow> bool"
    where "P = (\<lambda>w ty utxos R k T y.
              \<not> (w = ?w \<and> ty = P2TR \<and> utxos = [coin 1000] \<and> R = 600 \<and> k = 1
                 \<and> (T = 600 \<or> T = 9223372036854776287)))"
  have "P ?w P2TR [coin 1000] 600 1 600 y"
    if "reselectLoop ?w P2TR [coin 1000] 600 1 600 = Some y" for y
  proof (rule reselectLoop.raw_induct [where P = P, OF _ that])
    fix f w ty utxos R k T y
    assume IH: "\<And>w ty utxos R k T y. f w ty utxos R k T = Some y \<Longrightarrow> P w ty utxos R k T y"
    assume step: "(case SelectUTXOs utxos T of
        Inl e \<Rightarrow> Some (Inl (ErrSelectUTXOs e))
      | Inr (selectedUTXOs, totalValue) \<Rightarrow>
          (case computeFeeAndChange w ty R k selectedUTXOs totalValue of
             (estimatedFee, changeAmount) \<Rightarrow>
               if 0 \<le>s changeAmount
               then Some (Inr (selectedUTXOs, totalValue, estimatedFee, changeAmount))
               else f w ty utxos R k (R + estimatedFee))) = Some y"
    show "P w ty utxos R k T y"
      unfolding P_def
    proof
      assume b: "w = ?w \<and> ty = P2TR \<and> utxos = [coin 1000] \<and> R = 600 \<and> k = 1
            \<and> (T = 600 \<or> T = 9223372036854776287)"
      then have s: "SelectUTXOs utxos T = Inr ([coin 1000], 1000)"
        using select_600 select_neg by auto
      have c: "computeFeeAndChange w ty R k [coin 1000] 1000
                = (9223372036854775687, - 9223372036854775287)"
        using b reselectLoop_stuck_step by simp
      have "f w ty utxos R k (R + 9223372036854775687) = Some y"
        using step by (simp add: s c word_sle_eq)
      moreover have "R + 9223372036854775687 = 9223372036854776287" using b by simp
      ultimately have "P w ty utxos R k 9223372036854776287 y" using IH by simp
      then show False using b by (simp add: P_def)
    qed
  qed
  then show ?thesis
    by (cases "reselectLoop ?w P2TR [coin 1000] 600 1 600") (auto simp: P_def)
qed


text \<open>
  C4 (amended): for a non-empty set of coins of non-negative value whose sum is below
  \<open>2^62\<close>, outputs of total \<open>0 \<le> R < 2^62\<close> and a fee estimate that stays within
  \<open>[0, 2^62)\<close> for every number of selected coins, the loop ends within
  \<open>len(utxos) + 1\<close> rounds, either with a decision whose change is \<open>\<ge> 0\<close> or with the
  selector's insufficient-funds error: every round that does not end the loop selects
  strictly more coins than the one before.
\<close>

theorem reselectLoop_terminates:
  assumes "utxos \<noteq> []"
      and "\<forall>u\<in>set utxos. 0 \<le>s Value u"
      and "(\<Sum>u\<leftarrow>utxos. sint (Value u)) < 2 ^ 62"
      and "0 \<le>s R" and "sint R < 2 ^ 62"
      and "\<forall>n. 0 < n \<and> n \<le> length utxos \<longrightarrow>
             0 \<le>s estimateFee w (of_nat n) k ty
             \<and> sint (estimateFee w (of_nat n) k ty) < 2 ^ 62"
  shows "\<exists>r. reselectLoop w ty utxos R k R = Some r
             \<and> reselectRounds (Suc (length utxos)) w ty utxos R k R = Some r
             \<and> reselected r"
proof -
  have "\<exists>r. reselectRounds (Suc (length utxos - 0)) w ty utxos R k R = Some r \<and> reselected r"
  proof (rule reselectRounds_terminates_aux)
    show "\<forall>u\<in>set utxos. 0 \<le> sint (Value u)" using assms(2) by (simp add: word_sle_eq)
    show "\<forall>n. 0 < n \<and> n \<le> length utxos \<longrightarrow>
             0 \<le> sint (estimateFee w (of_nat n) k ty)
             \<and> sint (estimateFee w (of_nat n) k ty) < 2 ^ 62"
      using assms(6) by (simp add: word_sle_eq)
    show "0 \<le> sint R" using assms(4) by (simp add: word_sle_eq)
  qed (use assms in simp_all)
  then show ?thesis using reselectRounds_Some by fastforce
qed

theorem reselectLoop_terminates_witness:
  "[coin 600] \<noteq> [] \<and> 0 \<le>s Value (coin 600) \<and> sint (Value (coin 600)) < 2 ^ 62
   \<and> (0 :: int64) \<le>s 546 \<and> sint (546 :: int64) < 2 ^ 62
   \<and> 0 \<le>s estimateFee (testWallet 1) 1 1 P2PKH
   \<and> sint (estimateFee (testWallet 1) 1 1 P2PKH) < 2 ^ 62
   \<and> reselectLoop (testWallet 1) P2PKH [coin 600] 546 1 546
       = Some (Inl (ErrSelectUTXOs (ErrInsufficientFunds 738 600)))"
proof -
  have h: "\<forall>n. 0 < n \<and> n \<le> length [coin 600] \<longrightarrow>
             0 \<le>s estimateFee (testWallet 1) (of_nat n) 1 P2PKH
             \<and> sint (estimateFee (testWallet 1) (of_nat n) 1 P2PKH) < 2 ^ 62"
  proof (intro allI impI)
    fix n :: nat assume "0 < n \<and> n \<le> length [coin 600]"
    then have "n = 1" by simp
    then show "0 \<le>s estimateFee (testWallet 1) (of_nat n) 1 P2PKH
             \<and> sint (estimateFee (testWallet 1) (of_nat n) 1 P2PKH) < 2 ^ 62"
      by (simp add: eval_defs)
  qed
  have g: "[coin 600] \<noteq> []" "\<forall>u\<in>set [coin 600]. 0 \<le>s Value u"
    "(\<Sum>u\<leftarrow>[coin 600]. sint (Value u)) < 2 ^ 62" "(0 :: int64) \<le>s 546"
    "sint (546 :: int64) < 2 ^ 62"
    by (simp_all add: eval_defs)
  from reselectLoop_terminates [OF g h] obtain r where
    r: "reselectLoop (testWallet 1) P2PKH [coin 600] 546 1 546 = Some r"
       "reselectRounds (Suc (length [coin 600])) (testWallet 1) P2PKH [coin 600] 546 1 546 = Some r"
    by blast
  have "reselectRounds (Suc (length [coin 600])) (testWallet 1) P2PKH [coin 600] 546 1 546
          = Some (Inl (ErrSelectUTXOs (ErrInsufficientFunds 738 600)))"
    by (simp add: SelectUTXOs_def sortByValue_def eval_defs)
  with r have "reselectLoop (testWallet 1) P2PKH [coin 600] 546 1 546
          = Some (Inl (ErrSelectUTXOs (ErrInsufficientFunds 738 600)))" by simp
  then show ?thesis by (simp add: eval_defs)
qed


section \<open>Resolving the payment outputs\<close>

lemma offending_alt:
  "offending lib w out \<longleftrightarrow>
     Amount out \<le>s 0
     \<or> (case decodeAndValidateAddress lib w (Address out) of
           Inl e \<Rightarrow> True
         | Inr addr \<Rightarrow> PayToAddrScript lib addr = None)
     \<or> Amount out <s dustThreshold"
  by (auto simp: offending_def decodeAndValidateAddress_def Let_def split: option.splits)

lemma resolves_alt:
  "resolves lib w out r \<longleftrightarrow>
     decodeAndValidateAddress lib w (Address out) = Inr (ro_address r)
     \<and> PayToAddrScript lib (ro_address r) = Some (ro_script r)
     \<and> ro_amount r = Amount out"
  by (auto simp: resolves_def decodeAndValidateAddress_def Let_def split: option.splits)

lemma resolveLoop_step_sum:
  fixes tot a :: int64
  assumes "0 \<le> sint tot" "\<not> a <s dustThreshold"
  shows "(tot + a <s 0 \<longleftrightarrow> 2 ^ 63 \<le> sint tot + sint a)
         \<and> (\<not> tot + a <s 0 \<longrightarrow> sint (tot + a) = sint tot + sint a)"
proof -
  have a: "546 \<le> sint a" using assms(2) by (simp add: word_sless_alt dustThreshold_def)
  show ?thesis
    using sint_add_cases [of tot a] sint_bounds64 [of tot] sint_bounds64 [of a]
      sint_bounds64 [of "tot + a"] assms(1) a
    by (auto simp: word_sless_alt)
qed

lemma resolveLoop_Inr:
  assumes "resolveLoop lib w idx outs res tot = Inr (res', tot')" "0 \<le> sint tot"
  shows "(\<forall>x\<in>set outs. \<not> offending lib w x)
         \<and> sint tot' = sint tot + (\<Sum>x\<leftarrow>outs. sint (Amount x))
         \<and> (\<exists>rs. res' = res @ rs \<and> list_all2 (resolves lib w) outs rs)"
  using assms
proof (induction outs arbitrary: idx res tot)
  case Nil
  then show ?case by simp
next
  case (Cons out rest)
  from Cons.prems(1) obtain addr scr where
    ok: "\<not> Amount out \<le>s 0" "decodeAndValidateAddress lib w (Address out) = Inr addr"
        "PayToAddrScript lib addr = Some scr" "\<not> Amount out <s dustThreshold"
        "\<not> tot + Amount out <s 0"
    and rec: "resolveLoop lib w (Suc idx) rest
               (res @ [\<lparr>ro_address = addr, ro_script = scr, ro_amount = Amount out\<rparr>])
               (tot + Amount out) = Inr (res', tot')"
    by (auto simp: Let_def split: if_splits sum.splits option.splits)
  have ex: "sint (tot + Amount out) = sint tot + sint (Amount out)"
    using resolveLoop_step_sum [OF Cons.prems(2) ok(4)] ok(5) by simp
  have nn: "0 \<le> sint (tot + Amount out)" using ok(5) by (simp add: word_sless_alt)
  from Cons.IH [OF rec nn] obtain rs where
    ih: "\<forall>x\<in>set rest. \<not> offending lib w x"
        "sint tot' = sint (tot + Amount out) + (\<Sum>x\<leftarrow>rest. sint (Amount x))"
        "res' = (res @ [\<lparr>ro_address = addr, ro_script = scr, ro_amount = Amount out\<rparr>]) @ rs"
        "list_all2 (resolves lib w) rest rs"
    by blast
  have "\<not> offending lib w out" using ok by (simp add: offending_alt)
  moreover have "resolves lib w out \<lparr>ro_address = addr, ro_script = scr, ro_amount = Amount out\<rparr>"
    using ok by (simp add: resolves_alt)
  ultimately show ?case using ih ex by auto
qed

lemma resolveLoop_Inl:
  assumes "resolveLoop lib w idx outs res tot = Inl e" "0 \<le> sint tot"
  shows "(e = ErrAmountOverflow
           \<and> (\<exists>j<length outs. (\<forall>i\<le>j. \<not> offending lib w (outs ! i))
                 \<and> 2 ^ 63 \<le> sint tot + (\<Sum>x\<leftarrow>take (Suc j) outs. sint (Amount x))))
         \<or> (\<exists>i<length outs. errorIndex e = Some (idx + i) \<and> offending lib w (outs ! i)
                 \<and> (\<forall>j<i. \<not> offending lib w (outs ! j)))"
  using assms
proof (induction outs arbitrary: idx res tot)
  case Nil
  then show ?case by simp
next
  case (Cons out rest)
  show ?case
  proof (cases "offending lib w out")
    case True
    then have "errorIndex e = Some idx" using Cons.prems(1)
      by (auto simp: offending_alt Let_def split: if_splits sum.splits option.splits)
    with True show ?thesis by (intro disjI2 exI [of _ 0]) simp
  next
    case False
    then obtain addr scr where
      ok: "\<not> Amount out \<le>s 0" "decodeAndValidateAddress lib w (Address out) = Inr addr"
          "PayToAddrScript lib addr = Some scr" "\<not> Amount out <s dustThreshold"
      by (auto simp: offending_alt split: sum.splits)
    note st = resolveLoop_step_sum [OF Cons.prems(2) ok(4)]
    show ?thesis
    proof (cases "tot + Amount out <s 0")
      case True
      then have "e = ErrAmountOverflow" using Cons.prems(1) ok by (simp add: Let_def)
      moreover have "2 ^ 63 \<le> sint tot + sint (Amount out)" using st True by simp
      ultimately show ?thesis using False by (intro disjI1 conjI exI [of _ 0]) simp_all
    next
      case nov: False
      then have rec: "resolveLoop lib w (Suc idx) rest
               (res @ [\<lparr>ro_address = addr, ro_script = scr, ro_amount = Amount out\<rparr>])
               (tot + Amount out) = Inl e"
        using Cons.prems(1) ok by (simp add: Let_def)
      have ex: "sint (tot + Amount out) = sint tot + sint (Amount out)" using st nov by simp
      have nn: "0 \<le> sint (tot + Amount out)" using nov by (simp add: word_sless_alt)
      from Cons.IH [OF rec nn] show ?thesis
      proof
        assume "e = ErrAmountOverflow
           \<and> (\<exists>j<length rest. (\<forall>i\<le>j. \<not> offending lib w (rest ! i))
                 \<and> 2 ^ 63 \<le> sint (tot + Amount out) + (\<Sum>x\<leftarrow>take (Suc j) rest. sint (Amount x)))"
        then obtain j where j: "e = ErrAmountOverflow" "j < length rest"
          "\<forall>i\<le>j. \<not> offending lib w (rest ! i)"
          "2 ^ 63 \<le> sint (tot + Amount out) + (\<Sum>x\<leftarrow>take (Suc j) rest. sint (Amount x))"
          by blast
        have "\<forall>i\<le>Suc j. \<not> offending lib w ((out # rest) ! i)"
          using j(3) False by (auto simp: nth_Cons split: nat.splits)
        with j ex show ?thesis
          by (intro disjI1 conjI exI [of _ "Suc j"]) (simp_all add: add.assoc)
      next
        assume "\<exists>i<length rest. errorIndex e = Some (Suc idx + i) \<and> offending lib w (rest ! i)
                 \<and> (\<forall>j<i. \<not> offending lib w (rest ! j))"
        then obtain i where i: "i < length rest" "errorIndex e = Some (Suc idx + i)"
          "offending lib w (rest ! i)" "\<forall>j<i. \<not> offending lib w (rest ! j)" by blast
        have "\<forall>j<Suc i. \<not> offending lib w ((out # rest) ! j)"
          using i(4) False by (auto simp: nth_Cons split: nat.splits)
        with i show ?thesis by (intro disjI2 exI [of _ "Suc i"]) simp
      qed
    qed
  qed
qed


lemma not_offending_nonneg: "\<not> offending lib w x \<Longrightarrow> 0 \<le> sint (Amount x)"
  by (simp add: offending_alt word_sle_eq)

text \<open>
  C5 (as stated): on every failure the error identifies the index of the first offending
  entry.  The overflow error names no index: for an entry of the largest \<open>int64\<close> followed
  by an entry of 546 the result is the bare overflow error.  (Neither does the error for an
  empty list.)
\<close>

theorem resolvePaymentOutputs_index_counterexample:
  "resolvePaymentOutputs (testLib []) (testWallet 1)
      [pay ''a'' 9223372036854775807, pay ''b'' 546] = Inl ErrAmountOverflow
   \<and> errorIndex ErrAmountOverflow = None"
  by (simp add: resolvePaymentOutputs_def decodeAndValidateAddress_def testLib_def pay_def
        eval_defs)

text \<open>
  C5 (amended): \<open>resolvePaymentOutputs\<close> fails exactly when the list is empty, some entry
  is offending, or the sum of the amounts does not fit in 64 bits.  A failure is the
  empty-list error, or the overflow error, raised at the first entry where the running sum
  of the (non-offending) entries before and including it exceeds the range, or an error
  that names the index of the first offending entry.  On success the resolved outputs
  correspond to the entries in order and the total is the exact sum of the amounts.
\<close>

theorem resolvePaymentOutputs_contract:
  "((\<exists>e. resolvePaymentOutputs lib w outputs = Inl e) \<longleftrightarrow>
       outputs = [] \<or> (\<exists>x\<in>set outputs. offending lib w x)
       \<or> 2 ^ 63 \<le> (\<Sum>x\<leftarrow>outputs. sint (Amount x)))
   \<and> (\<forall>e. resolvePaymentOutputs lib w outputs = Inl e \<longrightarrow>
         (outputs = [] \<and> e = ErrNoOutputs)
         \<or> (e = ErrAmountOverflow
             \<and> (\<exists>j<length outputs. (\<forall>i\<le>j. \<not> offending lib w (outputs ! i))
                   \<and> 2 ^ 63 \<le> (\<Sum>x\<leftarrow>take (Suc j) outputs. sint (Amount x))))
         \<or> (\<exists>i<length outputs. errorIndex e = Some i \<and> offending lib w (outputs ! i)
               \<and> (\<forall>j<i. \<not> offending lib w (outputs ! j))))
   \<and> (\<forall>res tot. resolvePaymentOutputs lib w outputs = Inr (res, tot) \<longrightarrow>
         list_all2 (resolves lib w) outputs res
         \<and> sint tot = (\<Sum>x\<leftarrow>outputs. sint (Amount x)))"
proof (cases "outputs = []")
  case True
  then show ?thesis by (simp add: resolvePaymentOutputs_def)
next
  case False
  then have def: "resolvePaymentOutputs lib w outputs = resolveLoop lib w 0 outputs [] 0"
    by (simp add: resolvePaymentOutputs_def)
  have z: "0 \<le> sint (0 :: int64)" by simp
  have fail: "(outputs = [] \<and> e = ErrNoOutputs)
         \<or> (e = ErrAmountOverflow
             \<and> (\<exists>j<length outputs. (\<forall>i\<le>j. \<not> offending lib w (outputs ! i))
                   \<and> 2 ^ 63 \<le> (\<Sum>x\<leftarrow>take (Suc j) outputs. sint (Amount x))))
         \<or> (\<exists>i<length outputs. errorIndex e = Some i \<and> offending lib w (outputs ! i)
               \<and> (\<forall>j<i. \<not> offending lib w (outputs ! j)))"
    if "resolvePaymentOutputs lib w outputs = Inl e" for e
    using resolveLoop_Inl [OF that [unfolded def] z] by simp
  have succ: "list_all2 (resolves lib w) outputs res
         \<and> sint tot = (\<Sum>x\<leftarrow>outputs. sint (Amount x))
         \<and> (\<forall>x\<in>set outputs. \<not> offending lib w x)"
    if "resolvePaymentOutputs lib w outputs = Inr (res, tot)" for res tot
    using resolveLoop_Inr [OF that [unfolded def] z] by simp
  have iff: "(\<exists>e. resolvePaymentOutputs lib w outputs = Inl e) \<longleftrightarrow>
       outputs = [] \<or> (\<exists>x\<in>set outputs. offending lib w x)
       \<or> 2 ^ 63 \<le> (\<Sum>x\<leftarrow>outputs. sint (Amount x))"
  proof
    assume "\<exists>e. resolvePaymentOutputs lib w outputs = Inl e"
    then obtain e where e: "resolvePaymentOutputs lib w outputs = Inl e" by blast
    show "outputs = [] \<or> (\<exists>x\<in>set outputs. offending lib w x)
       \<or> 2 ^ 63 \<le> (\<Sum>x\<leftarrow>outputs. sint (Amount x))"
    proof (cases "\<exists>x\<in>set outputs. offending lib w x")
      case True
      then show ?thesis by simp
    next
      case none: False
      then have nn: "\<forall>x\<in>set outputs. 0 \<le> sint (Amount x)"
        using not_offending_nonneg by blast
      from fail [OF e] False none obtain j where
        "2 ^ 63 \<le> (\<Sum>x\<leftarrow>take (Suc j) outputs. sint (Amount x))"
        by (auto dest: nth_mem)
      with sum_list_take_le [OF nn, of "Suc j"] show ?thesis by simp
    qed
  next
    assume r: "outputs = [] \<or> (\<exists>x\<in>set outputs. offending lib w x)
       \<or> 2 ^ 63 \<le> (\<Sum>x\<leftarrow>outputs. sint (Amount x))"
    show "\<exists>e. resolvePaymentOutputs lib w outputs = Inl e"
    proof (cases "resolvePaymentOutputs lib w outputs")
      case (Inl e)
      then show ?thesis by simp
    next
      case (Inr p)
      obtain res tot where "p = (res, tot)" by (cases p)
      with Inr succ [of res tot] r False sint_bounds64 [of tot] show ?thesis by auto
    qed
  qed
  show ?thesis using iff fail succ by blast
qed

theorem resolvePaymentOutputs_contract_witness:
  "resolvePaymentOutputs (testLib []) (testWallet 1)
      [pay ''a'' 1500, pay ''foreign'' 2000, pay ''c'' 200]
     = Inl (ErrOutputAddress 1 ErrAddrWrongNetwork)
   \<and> errorIndex (ErrOutputAddress 1 ErrAddrWrongNetwork) = Some 1
   \<and> offending (testLib []) (testWallet 1) (pay ''foreign'' 2000)
   \<and> \<not> offending (testLib []) (testWallet 1) (pay ''a'' 1500)"
proof -
  let ?outs = "[pay ''a'' 1500, pay ''foreign'' 2000, pay ''c'' 200]"
  have o: "offending (testLib []) (testWallet 1) (pay ''foreign'' 2000)"
          "\<not> offending (testLib []) (testWallet 1) (pay ''a'' 1500)"
    by (simp_all add: offending_def testLib_def pay_def eval_defs)
  then have "\<exists>x\<in>set ?outs. offending (testLib []) (testWallet 1) x" by simp
  with resolvePaymentOutputs_contract [of "testLib []" "testWallet 1" ?outs]
  obtain e where e: "resolvePaymentOutputs (testLib []) (testWallet 1) ?outs = Inl e" by blast
  have "resolvePaymentOutputs (testLib []) (testWallet 1) ?outs
          = Inl (ErrOutputAddress 1 ErrAddrWrongNetwork)"
    by (simp add: resolvePaymentOutputs_def decodeAndValidateAddress_def testLib_def pay_def
          eval_defs)
  with o e show ?thesis by auto
qed

section \<open>Signing the inputs\<close>

lemma length_setWitness [simp]:
  "length (MsgTx_TxIn (setWitness tx idx wit)) = length (MsgTx_TxIn tx)"
  by (simp add: setWitness_def)

lemma length_setSignatureScript [simp]:
  "length (MsgTx_TxIn (setSignatureScript tx idx s)) = length (MsgTx_TxIn tx)"
  by (simp add: setSignatureScript_def)

lemma TxOut_setWitness [simp]: "MsgTx_TxOut (setWitness tx idx wit) = MsgTx_TxOut tx"
  by (simp add: setWitness_def)

lemma TxOut_setSignatureScript [simp]:
  "MsgTx_TxOut (setSignatureScript tx idx s) = MsgTx_TxOut tx"
  by (simp add: setSignatureScript_def)

lemma inRange_setWitness [simp]: "inRange (setWitness tx idx wit) j = inRange tx j"
  by (simp add: inRange_def)

lemma inRange_setSignatureScript [simp]: "inRange (setSignatureScript tx idx s) j = inRange tx j"
  by (simp add: inRange_def)

lemma signLoop_Cons:
  "signLoop lib w ty fromScript i (utxo # rest) tx =
     (case signOne lib w ty fromScript i utxo tx of
          None \<Rightarrow> Inl (ErrUnsupportedAddressType ty)
        | Some (Inl e) \<Rightarrow> Inl (wrapErr (ErrSignInput i) e)
        | Some (Inr tx') \<Rightarrow> signLoop lib w ty fromScript (i + 1) rest tx')"
  by (simp add: signOne_def Let_def)

declare signLoop.simps(2) [simp del]

lemma signOne_Inr:
  assumes "signOne lib w ty fromScript i utxo tx = Some (Inr tx')"
  shows "inRange tx i \<and> length (MsgTx_TxIn tx') = length (MsgTx_TxIn tx)
         \<and> MsgTx_TxOut tx' = MsgTx_TxOut tx
         \<and> (\<forall>j. j \<noteq> nat i \<longrightarrow> MsgTx_TxIn tx' ! j = MsgTx_TxIn tx ! j)"
  using assms
  by (auto simp: signOne_def SignP2PKHTransaction_def SignP2WPKHTransaction_def
        SignP2SHTransaction_def SignP2TRTransaction_def Let_def setWitness_def
        setSignatureScript_def
      split: if_splits option.splits sum.splits)


lemma wrapErr_Panic [simp]:
  "wrapErr (ErrSignInput i) e = PanicIndexOutOfRange \<longleftrightarrow> e = PanicIndexOutOfRange"
  by (simp add: wrapErr_def)


lemma signOne_outpoint:
  assumes "signOne lib w ty fromScript i utxo tx = Some (Inr tx')"
  shows "PreviousOutPoint (MsgTx_TxIn tx' ! j) = PreviousOutPoint (MsgTx_TxIn tx ! j)"
proof (cases "j = nat i")
  case False
  then show ?thesis using signOne_Inr [OF assms] by simp
next
  case True
  have "inRange tx i" using signOne_Inr [OF assms] by simp
  then have "nat i < length (MsgTx_TxIn tx)" by (auto simp: inRange_def)
  then show ?thesis using assms True
    by (auto simp: signOne_def SignP2PKHTransaction_def SignP2WPKHTransaction_def
        SignP2SHTransaction_def SignP2TRTransaction_def Let_def setWitness_def
        setSignatureScript_def
      split: if_splits option.splits sum.splits)
qed

lemma families_distinct [simp]:
  "P2PKH \<noteq> P2WPKH" "P2PKH \<noteq> P2SH" "P2PKH \<noteq> P2TR" "P2WPKH \<noteq> P2SH" "P2WPKH \<noteq> P2TR"
  "P2SH \<noteq> P2TR" "P2WPKH \<noteq> P2PKH" "P2SH \<noteq> P2PKH" "P2TR \<noteq> P2PKH" "P2SH \<noteq> P2WPKH"
  "P2TR \<noteq> P2WPKH" "P2TR \<noteq> P2SH"
  by (simp_all add: P2PKH_def P2WPKH_def P2SH_def P2TR_def)

lemma signOne_shape:
  assumes "signOne lib w ty fromScript i utxo tx = Some (Inr tx')"
      and "pushNonEmpty lib"
      and "SignatureScript (MsgTx_TxIn tx ! nat i) = []" "Witness (MsgTx_TxIn tx ! nat i) = []"
  shows "signedShape lib w ty (MsgTx_TxIn tx' ! nat i)"
proof -
  have "inRange tx i" using signOne_Inr [OF assms(1)] by simp
  then have r: "nat i < length (MsgTx_TxIn tx)" by (auto simp: inRange_def)
  have ne: "AddData lib d b = Some s \<Longrightarrow> s \<noteq> []" for d b s
    using assms(2) by (auto simp: pushNonEmpty_def)
  show ?thesis
    using assms(1,3,4) r
    by (auto simp: signOne_def SignP2PKHTransaction_def SignP2WPKHTransaction_def
        SignP2SHTransaction_def SignP2TRTransaction_def Let_def setWitness_def
        setSignatureScript_def signedShape_def redeemScript_def Script_def
      split: if_splits option.splits sum.splits dest: ne)
qed

lemma signLoop_Inr:
  assumes "signLoop lib w ty fromScript i us tx = Inr tx'" "0 \<le> i"
  shows "(i + int (length us) \<le> int (length (MsgTx_TxIn tx)) \<or> us = [])
       \<and> length (MsgTx_TxIn tx') = length (MsgTx_TxIn tx)
       \<and> MsgTx_TxOut tx' = MsgTx_TxOut tx
       \<and> (\<forall>j. PreviousOutPoint (MsgTx_TxIn tx' ! j) = PreviousOutPoint (MsgTx_TxIn tx ! j))
       \<and> (\<forall>j<nat i. MsgTx_TxIn tx' ! j = MsgTx_TxIn tx ! j)"
  using assms
proof (induction us arbitrary: i tx)
  case Nil
  then show ?case by simp
next
  case (Cons u rest)
  from Cons.prems(1) obtain tx1 where s1: "signOne lib w ty fromScript i u tx = Some (Inr tx1)"
    and rec: "signLoop lib w ty fromScript (i + 1) rest tx1 = Inr tx'"
    by (auto simp: signLoop_Cons split: option.splits sum.splits)
  note one = signOne_Inr [OF s1]
  have i1: "0 \<le> i + 1" using Cons.prems(2) by simp
  note ih = Cons.IH [OF rec i1]
  have A: "i + int (length (u # rest)) \<le> int (length (MsgTx_TxIn tx))"
    using ih one by (auto simp: inRange_def)
  have B: "length (MsgTx_TxIn tx') = length (MsgTx_TxIn tx)" using ih one by simp
  have C: "MsgTx_TxOut tx' = MsgTx_TxOut tx" using ih one by simp
  have D: "\<forall>j. PreviousOutPoint (MsgTx_TxIn tx' ! j) = PreviousOutPoint (MsgTx_TxIn tx ! j)"
    using ih signOne_outpoint [OF s1] by simp
  have E: "\<forall>j<nat i. MsgTx_TxIn tx' ! j = MsgTx_TxIn tx ! j"
  proof (intro allI impI)
    fix j assume "j < nat i"
    then have "j < nat (i + 1)" "j \<noteq> nat i" by auto
    then show "MsgTx_TxIn tx' ! j = MsgTx_TxIn tx ! j" using ih one by simp
  qed
  show ?case using A B C D E by blast
qed

lemma signLoop_shape:
  assumes "signLoop lib w ty fromScript i us tx = Inr tx'" "0 \<le> i" "pushNonEmpty lib"
      and "\<forall>j. nat i \<le> j \<and> j < length (MsgTx_TxIn tx) \<longrightarrow>
             SignatureScript (MsgTx_TxIn tx ! j) = [] \<and> Witness (MsgTx_TxIn tx ! j) = []"
  shows "\<forall>j. nat i \<le> j \<and> j < nat i + length us \<longrightarrow> signedShape lib w ty (MsgTx_TxIn tx' ! j)"
  using assms
proof (induction us arbitrary: i tx)
  case Nil
  show ?case by auto
next
  case (Cons u rest)
  from Cons.prems(1) obtain tx1 where s1: "signOne lib w ty fromScript i u tx = Some (Inr tx1)"
    and rec: "signLoop lib w ty fromScript (i + 1) rest tx1 = Inr tx'"
    by (auto simp: signLoop_Cons split: option.splits sum.splits)
  have one: "\<forall>j. j \<noteq> nat i \<longrightarrow> MsgTx_TxIn tx1 ! j = MsgTx_TxIn tx ! j"
    using signOne_Inr [OF s1] by blast
  have l1: "length (MsgTx_TxIn tx1) = length (MsgTx_TxIn tx)"
    using signOne_Inr [OF s1] by blast
  have "inRange tx i" using signOne_Inr [OF s1] by blast
  then have r: "nat i < length (MsgTx_TxIn tx)" by (auto simp: inRange_def)
  have i1: "0 \<le> i + 1" using Cons.prems(2) by simp
  have n1: "nat (i + 1) = Suc (nat i)" using Cons.prems(2) by simp
  have f0: "SignatureScript (MsgTx_TxIn tx ! nat i) = []" "Witness (MsgTx_TxIn tx ! nat i) = []"
    using Cons.prems(4) r by simp_all
  have sh: "signedShape lib w ty (MsgTx_TxIn tx1 ! nat i)"
    by (rule signOne_shape [OF s1 Cons.prems(3) f0])
  have fresh1: "\<forall>j. nat (i + 1) \<le> j \<and> j < length (MsgTx_TxIn tx1) \<longrightarrow>
                  SignatureScript (MsgTx_TxIn tx1 ! j) = [] \<and> Witness (MsgTx_TxIn tx1 ! j) = []"
  proof (intro allI impI)
    fix j assume j: "nat (i + 1) \<le> j \<and> j < length (MsgTx_TxIn tx1)"
    then have "j \<noteq> nat i" "nat i \<le> j \<and> j < length (MsgTx_TxIn tx)" using n1 l1 by simp_all
    then show "SignatureScript (MsgTx_TxIn tx1 ! j) = [] \<and> Witness (MsgTx_TxIn tx1 ! j) = []"
      using one Cons.prems(4) by simp
  qed
  note ih = Cons.IH [OF rec i1 Cons.prems(3) fresh1]
  have "\<forall>j<nat (i + 1). MsgTx_TxIn tx' ! j = MsgTx_TxIn tx1 ! j"
    using signLoop_Inr [OF rec i1] by blast
  then have keep: "MsgTx_TxIn tx' ! nat i = MsgTx_TxIn tx1 ! nat i"
    using n1 by simp
  show ?case
  proof (intro allI impI)
    fix j assume j: "nat i \<le> j \<and> j < nat i + length (u # rest)"
    show "signedShape lib w ty (MsgTx_TxIn tx' ! j)"
    proof (cases "j = nat i")
      case True
      then show ?thesis using sh keep by simp
    next
      case False
      then have "nat (i + 1) \<le> j \<and> j < nat (i + 1) + length rest" using j n1 by auto
      then show ?thesis using ih by blast
    qed
  qed
qed







lemma SignTransaction_signLoop:
  assumes "SignTransaction lib w tx ty utxos = Inr tx'"
  shows "\<exists>fromScript. signLoop lib w ty fromScript 0 utxos tx = Inr tx'"
  using assms by (auto simp: SignTransaction_def split: sum.splits option.splits)


lemma addInputs_Inr:
  assumes "addInputs lib idx us tx = Inr tx'"
  shows "MsgTx_TxOut tx' = MsgTx_TxOut tx
       \<and> (\<exists>ins. MsgTx_TxIn tx' = MsgTx_TxIn tx @ ins \<and> length ins = length us
             \<and> (\<forall>inp\<in>set ins. fresh inp))"
  using assms
proof (induction us arbitrary: idx tx)
  case Nil
  then show ?case by simp
next
  case (Cons u rest)
  from Cons.prems obtain h where h: "NewHashFromStr lib (TxID u) = Some h"
    and rec: "addInputs lib (Suc idx) rest
                (AddTxIn (NewTxIn (NewOutPoint h (Vout u)) [] []) tx) = Inr tx'"
    by (auto split: if_splits option.splits)
  from Cons.IH [OF rec] obtain ins where
    ih: "MsgTx_TxOut tx' = MsgTx_TxOut tx"
        "MsgTx_TxIn tx' = (MsgTx_TxIn tx @ [NewTxIn (NewOutPoint h (Vout u)) [] []]) @ ins"
        "length ins = length rest" "\<forall>inp\<in>set ins. fresh inp"
    by (auto simp: AddTxIn_def)
  have "fresh (NewTxIn (NewOutPoint h (Vout u)) [] [])" by (simp add: fresh_def NewTxIn_def)
  with ih show ?case
    by (intro conjI exI [of _ "NewTxIn (NewOutPoint h (Vout u)) [] [] # ins"]) simp_all
qed

lemma addOutputs_TxIn [simp]: "MsgTx_TxIn (addOutputs outs tx) = MsgTx_TxIn tx"
  by (induction outs arbitrary: tx) (simp_all add: AddTxOut_def)

lemma buildTransaction_fresh:
  assumes "buildTransaction lib w ty utxos outs change = Inr tx"
  shows "length (MsgTx_TxIn tx) = length utxos \<and> (\<forall>inp\<in>set (MsgTx_TxIn tx). fresh inp)"
proof -
  from assms obtain tx0 where a: "addInputs lib 0 utxos (NewMsgTx TxVersion) = Inr tx0"
    and t: "MsgTx_TxIn tx = MsgTx_TxIn tx0"
    by (auto simp: buildTransaction_def Let_def AddTxOut_def
        split: if_splits sum.splits option.splits)
  from addInputs_Inr [OF a] show ?thesis
    by (auto simp: t NewMsgTx_def)
qed

lemma addAllInputs_Inr:
  assumes "addAllInputs lib us tx = Inr tx'"
  shows "MsgTx_TxOut tx' = MsgTx_TxOut tx
       \<and> (\<exists>ins. MsgTx_TxIn tx' = MsgTx_TxIn tx @ ins \<and> length ins = length us
             \<and> (\<forall>i<length us. NewHashFromStr lib (TxID (us ! i))
                                  = Some (Hash (PreviousOutPoint (ins ! i)))
                               \<and> Index (PreviousOutPoint (ins ! i)) = Vout (us ! i)))"
  using assms
proof (induction us arbitrary: tx)
  case Nil
  then show ?case by simp
next
  case (Cons u rest)
  from Cons.prems obtain h where h: "NewHashFromStr lib (TxID u) = Some h"
    and rec: "addAllInputs lib rest (AddTxIn (NewTxIn (NewOutPoint h (Vout u)) [] []) tx) = Inr tx'"
    by (auto split: option.splits)
  from Cons.IH [OF rec] obtain ins where
    ih: "MsgTx_TxOut tx' = MsgTx_TxOut tx"
        "MsgTx_TxIn tx' = (MsgTx_TxIn tx @ [NewTxIn (NewOutPoint h (Vout u)) [] []]) @ ins"
        "length ins = length rest"
        "\<forall>i<length rest. NewHashFromStr lib (TxID (rest ! i))
                                  = Some (Hash (PreviousOutPoint (ins ! i)))
                               \<and> Index (PreviousOutPoint (ins ! i)) = Vout (rest ! i)"
    by (auto simp: AddTxIn_def)
  let ?ins = "NewTxIn (NewOutPoint h (Vout u)) [] [] # ins"
  have "\<forall>i<length (u # rest). NewHashFromStr lib (TxID ((u # rest) ! i))
                                  = Some (Hash (PreviousOutPoint (?ins ! i)))
                               \<and> Index (PreviousOutPoint (?ins ! i)) = Vout ((u # rest) ! i)"
    using ih(4) h by (auto simp: nth_Cons NewTxIn_def NewOutPoint_def split: nat.splits)
  with ih show ?case by (intro conjI exI [of _ ?ins]) simp_all
qed



lemmas sign_defs = SignTransaction_def GetAddress_def getP2PKHAddress_def getP2WPKHAddress_def
  getP2SHAddress_def getP2TRAddress_def signLoop.simps(2) SignP2PKHTransaction_def
  SignP2WPKHTransaction_def SignP2SHTransaction_def SignP2TRTransaction_def inRange_def
  setSignatureScript_def setWitness_def NewScriptBuilder_def Script_def OP_0_def
  SigHashAll_def SigHashDefault_def wrapErr_def testLib_def
  sampleTx_def sampleIn_def NewTxIn_def NewOutPoint_def MaxTxInSequenceNum_def


text \<open>
  C8: the taproot signing result does not depend on the \<open>pkScript\<close> argument: for any two
  values of it \<open>SignP2TRTransaction\<close> gives the same result, and a successful result is
  the transaction with the witness of input \<open>idx\<close> set to the one signature made over the
  script that the function derives itself from the wallet's own taproot address.
\<close>

theorem SignP2TRTransaction_ignores_pkScript:
  "SignP2TRTransaction lib w tx idx val pkScript = SignP2TRTransaction lib w tx idx val pkScript'
   \<and> (\<forall>tx'. SignP2TRTransaction lib w tx idx val pkScript = Inr tx' \<longrightarrow>
         (\<exists>p2trAddr addrObj prevScript sig.
            getP2TRAddress lib w = Inr p2trAddr
            \<and> DecodeAddress lib p2trAddr (network w) = Some addrObj
            \<and> PayToAddrScript lib addrObj = Some prevScript
            \<and> RawTxInTaprootSignature lib tx (prevScript, val) idx val prevScript
                 SigHashDefault (privateKey w) = Some sig
            \<and> tx' = setWitness tx idx [sig]))"
  by (auto simp: SignP2TRTransaction_def split: sum.splits option.splits if_splits)

theorem SignP2TRTransaction_ignores_pkScript_witness:
  "SignP2TRTransaction (testLib []) (testWallet 1) sampleTx 0 1000 [1, 2, 3]
     = Inr (setWitness sampleTx 0 [[64]])
   \<and> SignP2TRTransaction (testLib []) (testWallet 1) sampleTx 0 1000 []
     = Inr (setWitness sampleTx 0 [[64]])"
proof -
  have e: "SignP2TRTransaction (testLib []) (testWallet 1) sampleTx 0 1000 [1, 2, 3]
             = Inr (setWitness sampleTx 0 [[64]])"
    by (simp add: sign_defs eval_defs)
  from SignP2TRTransaction_ignores_pkScript
         [of "testLib []" "testWallet 1" sampleTx 0 1000 "[1, 2, 3]" "[]"] e
  show ?thesis by simp
qed



text \<open>
  C7: after \<open>SignTransaction\<close> succeeds on a transaction just built by
  \<open>buildTransaction\<close> from the same coins, there is one input per coin and every input has
  the shape of its family: nested-segwit, a non-empty unlocking script that is the single
  push of the P2WPKH redeem script, and the two-element witness (signature with hash type,
  compressed public key); legacy, a non-empty unlocking script and an empty witness;
  taproot, a one-element witness and an empty unlocking script.  (That a push is never the
  empty script is the builder's property, taken as a hypothesis.)
\<close>

theorem signed_inputs_shape:
  assumes "buildTransaction lib w ty utxos outs change = Inr tx"
      and "SignTransaction lib w tx ty utxos = Inr tx'"
      and "pushNonEmpty lib"
  shows "length (MsgTx_TxIn tx') = length utxos
       \<and> (\<forall>i<length utxos. signedShape lib w ty (MsgTx_TxIn tx' ! i))"
proof -
  from buildTransaction_fresh [OF assms(1)] have
    len: "length (MsgTx_TxIn tx) = length utxos" and fr: "\<forall>inp\<in>set (MsgTx_TxIn tx). fresh inp"
    by simp_all
  from SignTransaction_signLoop [OF assms(2)] obtain fromScript where
    s: "signLoop lib w ty fromScript 0 utxos tx = Inr tx'" by blast
  have z: "(0 :: int) \<le> 0" by simp
  have sameLen: "length (MsgTx_TxIn tx') = length (MsgTx_TxIn tx)"
    using signLoop_Inr [OF s z] by blast
  have f: "\<forall>j. nat 0 \<le> j \<and> j < length (MsgTx_TxIn tx) \<longrightarrow>
             SignatureScript (MsgTx_TxIn tx ! j) = [] \<and> Witness (MsgTx_TxIn tx ! j) = []"
    using fr by (auto simp: fresh_def)
  from signLoop_shape [OF s z assms(3) f]
  have "\<forall>i<length utxos. signedShape lib w ty (MsgTx_TxIn tx' ! i)" by simp
  then show ?thesis using sameLen len by simp
qed

lemma pushNonEmpty_testLib: "pushNonEmpty (testLib utxos)"
  by (auto simp: pushNonEmpty_def testLib_def)

lemmas build_defs = buildTransaction_def NewMsgTx_def
  TxVersion_def AddTxIn_def AddTxOut_def NewTxOut_def sampleOut_def dustThreshold_def
  word_sle_eq word_sless_alt

theorem signed_inputs_shape_witness:
  "buildTransaction (testLib []) (testWallet 1) P2SH [coin 3000] [sampleOut] 0
     = Inr \<lparr>Version = 1, MsgTx_TxIn = [NewTxIn (NewOutPoint [0] 0) [] []],
            MsgTx_TxOut = [NewTxOut 1500 [118]], LockTime = 0\<rparr>
   \<and> SignTransaction (testLib []) (testWallet 1)
        \<lparr>Version = 1, MsgTx_TxIn = [NewTxIn (NewOutPoint [0] 0) [] []],
         MsgTx_TxOut = [NewTxOut 1500 [118]], LockTime = 0\<rparr> P2SH [coin 3000]
     = Inr \<lparr>Version = 1,
            MsgTx_TxIn = [(NewTxIn (NewOutPoint [0] 0) [] [])
                            \<lparr>SignatureScript := [2, 0, 0], Witness := [[48, 1], []]\<rparr>],
            MsgTx_TxOut = [NewTxOut 1500 [118]], LockTime = 0\<rparr>
   \<and> pushNonEmpty (testLib [])
   \<and> signedShape (testLib []) (testWallet 1) P2SH
        ((NewTxIn (NewOutPoint [0] 0) [] []) \<lparr>SignatureScript := [2, 0, 0], Witness := [[48, 1], []]\<rparr>)"
proof -
  let ?tx = "\<lparr>Version = 1, MsgTx_TxIn = [NewTxIn (NewOutPoint [0] 0) [] []],
            MsgTx_TxOut = [NewTxOut 1500 [118]], LockTime = 0\<rparr>"
  let ?tx' = "\<lparr>Version = 1,
            MsgTx_TxIn = [(NewTxIn (NewOutPoint [0] 0) [] [])
                            \<lparr>SignatureScript := [2, 0, 0], Witness := [[48, 1], []]\<rparr>],
            MsgTx_TxOut = [NewTxOut 1500 [118]], LockTime = 0\<rparr>"
  have b: "buildTransaction (testLib []) (testWallet 1) P2SH [coin 3000] [sampleOut] 0 = Inr ?tx"
    by (simp add: build_defs testLib_def coin_def)
  have s: "SignTransaction (testLib []) (testWallet 1) ?tx P2SH [coin 3000] = Inr ?tx'"
    by (simp add: sign_defs eval_defs)
  note p = pushNonEmpty_testLib [of "[]"]
  from signed_inputs_shape [OF b s p] b s p show ?thesis by simp
qed

section \<open>Sweep all\<close>

lemma sint_mul_exact:
  fixes a b :: int64
  assumes "- (2^63) \<le> sint a * sint b" "sint a * sint b < 2^63"
  shows "sint (a * b) = sint a * sint b"
  using assms by (simp add: sint_word_ariths signed_take_bit_int_eq_self)

lemma totalBalance_of_int:
  "foldl (\<lambda>acc utxo. acc + Value utxo) (word_of_int k) us
     = (word_of_int (k + (\<Sum>u\<leftarrow>us. sint (Value u))) :: int64)"
proof (induction us arbitrary: k)
  case Nil
  then show ?case by simp
next
  case (Cons u rest)
  have "word_of_int k + Value u = (word_of_int (k + sint (Value u)) :: int64)"
    by simp
  then show ?case using Cons.IH [of "k + sint (Value u)"] by (simp add: add.assoc)
qed

lemma transferAmount_of_int:
  "transferAmount w ty utxos =
     word_of_int ((\<Sum>u\<leftarrow>utxos. sint (Value u))
        - sint (EstimateTxSize (of_nat (length utxos)) 1 ty)
          * max (sint (feeRate w)) 1)"
proof -
  have r: "(if feeRate w \<le>s 0 then 1 else feeRate w) = (word_of_int (max (sint (feeRate w)) 1) :: int64)"
  proof (cases "feeRate w \<le>s 0")
    case True
    then show ?thesis by (simp add: word_sle_eq max_def)
  next
    case False
    then have "max (sint (feeRate w)) 1 = sint (feeRate w)" by (simp add: word_sle_eq max_def)
    with False show ?thesis by simp
  qed
  have t: "totalBalance utxos = (word_of_int (\<Sum>u\<leftarrow>utxos. sint (Value u)) :: int64)"
    using totalBalance_of_int [of 0 utxos] by (simp add: totalBalance_def)
  have e: "EstimateTxSize (of_nat (length utxos)) 1 ty
            = (word_of_int (sint (EstimateTxSize (of_nat (length utxos)) 1 ty)) :: int64)"
    by simp
  show ?thesis
    unfolding transferAmount_def Let_def r t
    by (subst e) (simp only: word_of_int_homs)
qed

lemma SendAll_unfold:
  assumes "decodeAndValidateAddress lib w toAddress = Inr targetAddr"
      and "GetAddress lib w ty = Inr fromAddr"
      and "GetUTXOs lib w fromAddr = Inr utxos"
      and "utxos \<noteq> []"
  shows "SendAll lib w ty toAddress =
    (if transferAmount w ty utxos \<le>s 0 then Inl ErrInsufficientForFee
     else
       (case addAllInputs lib utxos (NewMsgTx TxVersion) of
          Inl e \<Rightarrow> Inl e
        | Inr tx \<Rightarrow>
           (case PayToAddrScript lib targetAddr of
              None \<Rightarrow> Inl ErrTargetScript
            | Some receiverScript \<Rightarrow>
               (case SignTransaction lib w
                       (AddTxOut (NewTxOut (transferAmount w ty utxos) receiverScript) tx)
                       ty utxos of
                  Inl e \<Rightarrow> Inl (wrapErr ErrSignTx e)
                | Inr tx'' \<Rightarrow>
                   (case Serialize lib tx'' of
                      None \<Rightarrow> Inl ErrSerialize
                    | Some buf \<Rightarrow>
                       (case BroadcastTransaction lib w (EncodeToString lib buf) of
                          Inl e \<Rightarrow> Inl e
                        | Inr txid \<Rightarrow> Inr (tx'', txid)))))))"
  using assms by (simp add: SendAll_def Let_def split: sum.splits option.splits)

lemma SendAll_Inr:
  assumes p: "decodeAndValidateAddress lib w toAddress = Inr targetAddr"
      "GetAddress lib w ty = Inr fromAddr" "GetUTXOs lib w fromAddr = Inr utxos" "utxos \<noteq> []"
      and r: "SendAll lib w ty toAddress = Inr (tx, txid)"
  shows "\<exists>tx0 receiverScript.
           addAllInputs lib utxos (NewMsgTx TxVersion) = Inr tx0
           \<and> PayToAddrScript lib targetAddr = Some receiverScript
           \<and> SignTransaction lib w
                (AddTxOut (NewTxOut (transferAmount w ty utxos) receiverScript) tx0) ty utxos
               = Inr tx"
  using r unfolding SendAll_unfold [OF p]
  by (auto split: if_splits sum.splits option.splits)

lemma addAllInputs_error:
  "addAllInputs lib us tx = Inl e \<Longrightarrow> e = ErrParseTxHash"
  by (induction us arbitrary: tx) (auto split: option.splits)

text \<open>
  C6 (amended): once the destination validates and a non-empty coin list is fetched,
  \<open>SendAll\<close> fails with the insufficiency error exactly when its amount is \<open>\<le> 0\<close>; a
  successful sweep has one input per coin, in order, each spending that coin's outpoint,
  and exactly one output, which pays the amount to the destination's script (no change
  output).  The amount is \<open>T - EstimateTxSize(n, 1, family) * max(r, 1)\<close> in wrapping
  \<open>int64\<close> arithmetic, and is that integer exactly whenever the integer fits in 64 bits.
\<close>

theorem SendAll_sweep:
  assumes "decodeAndValidateAddress lib w toAddress = Inr targetAddr"
      and "GetAddress lib w ty = Inr fromAddr"
      and "GetUTXOs lib w fromAddr = Inr utxos"
      and "utxos \<noteq> []"
  shows "(SendAll lib w ty toAddress = Inl ErrInsufficientForFee
            \<longleftrightarrow> transferAmount w ty utxos \<le>s 0)
       \<and> (\<forall>tx txid. SendAll lib w ty toAddress = Inr (tx, txid) \<longrightarrow>
             length (MsgTx_TxIn tx) = length utxos
             \<and> (\<forall>i<length utxos.
                   NewHashFromStr lib (TxID (utxos ! i))
                     = Some (Hash (PreviousOutPoint (MsgTx_TxIn tx ! i)))
                   \<and> Index (PreviousOutPoint (MsgTx_TxIn tx ! i)) = Vout (utxos ! i))
             \<and> (\<exists>receiverScript. PayToAddrScript lib targetAddr = Some receiverScript
                   \<and> MsgTx_TxOut tx
                       = [NewTxOut (transferAmount w ty utxos) receiverScript]))
       \<and> transferAmount w ty utxos
           = totalBalance utxos
             - EstimateTxSize (of_nat (length utxos)) 1 ty
               * (if feeRate w \<le>s 0 then 1 else feeRate w)
       \<and> (- (2 ^ 63) \<le> (\<Sum>u\<leftarrow>utxos. sint (Value u))
               - sint (EstimateTxSize (of_nat (length utxos)) 1 ty) * max (sint (feeRate w)) 1
           \<and> (\<Sum>u\<leftarrow>utxos. sint (Value u))
               - sint (EstimateTxSize (of_nat (length utxos)) 1 ty) * max (sint (feeRate w)) 1
              < 2 ^ 63
           \<longrightarrow> sint (transferAmount w ty utxos)
                = (\<Sum>u\<leftarrow>utxos. sint (Value u))
                  - sint (EstimateTxSize (of_nat (length utxos)) 1 ty)
                    * max (sint (feeRate w)) 1)"
proof -
  have A: "SendAll lib w ty toAddress = Inl ErrInsufficientForFee
            \<longleftrightarrow> transferAmount w ty utxos \<le>s 0"
    unfolding SendAll_unfold [OF assms]
    by (auto simp: wrapErr_def BroadcastTransaction_def
             dest: addAllInputs_error
             split: sum.splits option.splits)
  have B: "length (MsgTx_TxIn tx) = length utxos
             \<and> (\<forall>i<length utxos.
                   NewHashFromStr lib (TxID (utxos ! i))
                     = Some (Hash (PreviousOutPoint (MsgTx_TxIn tx ! i)))
                   \<and> Index (PreviousOutPoint (MsgTx_TxIn tx ! i)) = Vout (utxos ! i))
             \<and> (\<exists>receiverScript. PayToAddrScript lib targetAddr = Some receiverScript
                   \<and> MsgTx_TxOut tx
                       = [NewTxOut (transferAmount w ty utxos) receiverScript])"
    if r: "SendAll lib w ty toAddress = Inr (tx, txid)" for tx txid
  proof -
    from SendAll_Inr [OF assms r] obtain tx0 receiverScript where
      a: "addAllInputs lib utxos (NewMsgTx TxVersion) = Inr tx0"
      and b: "PayToAddrScript lib targetAddr = Some receiverScript"
      and c: "SignTransaction lib w
                (AddTxOut (NewTxOut (transferAmount w ty utxos) receiverScript) tx0) ty utxos
               = Inr tx"
      by blast
    let ?tx1 = "AddTxOut (NewTxOut (transferAmount w ty utxos) receiverScript) tx0"
    from addAllInputs_Inr [OF a] obtain ins where
      i: "MsgTx_TxOut tx0 = []" "MsgTx_TxIn tx0 = ins" "length ins = length utxos"
         "\<forall>i<length utxos. NewHashFromStr lib (TxID (utxos ! i))
                                  = Some (Hash (PreviousOutPoint (ins ! i)))
                               \<and> Index (PreviousOutPoint (ins ! i)) = Vout (utxos ! i)"
      by (auto simp: NewMsgTx_def)
    from SignTransaction_signLoop [OF c] obtain fromScript where
      s: "signLoop lib w ty fromScript 0 utxos ?tx1 = Inr tx" by blast
    have z: "(0 :: int) \<le> 0" by simp
    note k = signLoop_Inr [OF s z]
    have in1: "MsgTx_TxIn ?tx1 = ins"
      "MsgTx_TxOut ?tx1 = [NewTxOut (transferAmount w ty utxos) receiverScript]"
      using i by (simp_all add: AddTxOut_def)
    have "length (MsgTx_TxIn tx) = length utxos" using k in1 i by simp
    moreover have "\<exists>receiverScript. PayToAddrScript lib targetAddr = Some receiverScript
                   \<and> MsgTx_TxOut tx
                       = [NewTxOut (transferAmount w ty utxos) receiverScript]"
      using k in1 b by simp
    moreover have "\<forall>j<length utxos. NewHashFromStr lib (TxID (utxos ! j))
                     = Some (Hash (PreviousOutPoint (MsgTx_TxIn tx ! j)))
                   \<and> Index (PreviousOutPoint (MsgTx_TxIn tx ! j)) = Vout (utxos ! j)"
      using k in1 i by simp
    ultimately show ?thesis by blast
  qed
  have C: "transferAmount w ty utxos
           = totalBalance utxos
             - EstimateTxSize (of_nat (length utxos)) 1 ty
               * (if feeRate w \<le>s 0 then 1 else feeRate w)"
    by (simp add: transferAmount_def Let_def)
  have D: "sint (transferAmount w ty utxos)
                = (\<Sum>u\<leftarrow>utxos. sint (Value u))
                  - sint (EstimateTxSize (of_nat (length utxos)) 1 ty)
                    * max (sint (feeRate w)) 1"
    if "- (2 ^ 63) \<le> (\<Sum>u\<leftarrow>utxos. sint (Value u))
               - sint (EstimateTxSize (of_nat (length utxos)) 1 ty) * max (sint (feeRate w)) 1
           \<and> (\<Sum>u\<leftarrow>utxos. sint (Value u))
               - sint (EstimateTxSize (of_nat (length utxos)) 1 ty) * max (sint (feeRate w)) 1
              < 2 ^ 63"
    unfolding transferAmount_of_int using that by (intro sint_of_int_small) simp_all
  show ?thesis using A B C D by blast
qed

lemmas send_defs = SendAll_def decodeAndValidateAddress_def GetUTXOs_def
  BroadcastTransaction_def transferAmount_def NewMsgTx_def TxVersion_def AddTxIn_def
  AddTxOut_def NewTxOut_def

text \<open>
  C6 (as stated): the swept amount is the coins' total less the fee exactly, and the sweep
  fails with the insufficiency error exactly when that amount is \<open>\<le> 0\<close>.  The fee is an
  \<open>int64\<close> product that nothing checks: with the fee rate at the largest \<open>int64\<close> and one
  legacy coin of 1000 the fee \<open>192 * feeRate\<close> wraps to \<open>-192\<close>, and the sweep succeeds with
  an output of 1192, although the total less the fee is far below 0.
\<close>

theorem SendAll_overflow_counterexample:
  "SendAll (testLib [coin 1000]) (testWallet 9223372036854775807) P2PKH ''dest''
     = Inr (\<lparr>Version = 1, MsgTx_TxIn = [signedLegacyIn],
             MsgTx_TxOut = [NewTxOut 1192 [118]], LockTime = 0\<rparr>, ''txid'')
   \<and> sint (1000 :: int64)
       - sint (EstimateTxSize 1 1 P2PKH) * max (sint (9223372036854775807 :: int64)) 1 \<le> 0"
  by (simp add: send_defs sign_defs eval_defs signedLegacyIn_def)

theorem SendAll_sweep_witness:
  "decodeAndValidateAddress (testLib [coin 4000, coin 6000]) (testWallet 2) ''dest'' = Inr ''dest''
   \<and> GetAddress (testLib [coin 4000, coin 6000]) (testWallet 2) P2WPKH = Inr ''segwit''
   \<and> GetUTXOs (testLib [coin 4000, coin 6000]) (testWallet 2) ''segwit''
        = Inr [coin 4000, coin 6000]
   \<and> [coin 4000, coin 6000] \<noteq> []
   \<and> SendAll (testLib [coin 4000, coin 6000]) (testWallet 2) P2WPKH ''dest''
        = Inr (\<lparr>Version = 1, MsgTx_TxIn = [signedSegwitIn, signedSegwitIn],
                MsgTx_TxOut = [NewTxOut 9554 [118]], LockTime = 0\<rparr>, ''txid'')
   \<and> transferAmount (testWallet 2) P2WPKH [coin 4000, coin 6000] = 9554
   \<and> sint (EstimateTxSize 2 1 P2WPKH) = 223"
proof -
  let ?lib = "testLib [coin 4000, coin 6000]"
  have p: "decodeAndValidateAddress ?lib (testWallet 2) ''dest'' = Inr ''dest''"
    "GetAddress ?lib (testWallet 2) P2WPKH = Inr ''segwit''"
    "GetUTXOs ?lib (testWallet 2) ''segwit'' = Inr [coin 4000, coin 6000]"
    "[coin 4000, coin 6000] \<noteq> []"
    by (simp_all add: send_defs sign_defs eval_defs)
  have e: "SendAll ?lib (testWallet 2) P2WPKH ''dest''
        = Inr (\<lparr>Version = 1, MsgTx_TxIn = [signedSegwitIn, signedSegwitIn],
                MsgTx_TxOut = [NewTxOut 9554 [118]], LockTime = 0\<rparr>, ''txid'')"
    by (simp add: send_defs sign_defs eval_defs signedSegwitIn_def)
  have t: "transferAmount (testWallet 2) P2WPKH [coin 4000, coin 6000] = 9554"
    "sint (EstimateTxSize 2 1 P2WPKH) = 223"
    by (simp_all add: send_defs eval_defs)
  from SendAll_sweep [OF p] e p t show ?thesis by simp
qed



end
